theory Spec2Isabelle
  imports Main "HOL-Library.Sublist"
begin

section \<open>The Taby controller (taby\_controller.py) as a state-passing model\<close>

text \<open>
  The controller object of \<^verbatim>\<open>taby_controller.py\<close> holds a settings dictionary, the
  in-memory queue and instance lists, the counter \<^verbatim>\<open>next_instance_id\<close>, and talks to a
  SQLite file with the two tables \<^verbatim>\<open>queue\<close> and \<^verbatim>\<open>instances\<close>. The model keeps all
  of that in one record; every method takes the controller and returns the updated one
  together with the method's return value. What the operating system answers (port
  probes, process launch, signals) is an argument of each call.
  Console output (\<^verbatim>\<open>print\<close>) is not part of the state and is left out. A SQLite
  statement fails only by violating the primary key; failures of the database file itself
  are outside the model.
\<close>

subsection \<open>Data\<close>

text \<open>The entries of \<^verbatim>\<open>self.settings\<close> the controller logic reads; argparse gives them
  the type \<^verbatim>\<open>int\<close>, with no range check.\<close>

record settings =
  rtsp_base_port :: int
  http_base_port :: int
  port_increment :: int
  max_concurrent :: int

text \<open>A queue entry \<^verbatim>\<open>{"id": ..., "url": ...}\<close> and a row of table \<^verbatim>\<open>queue\<close>.\<close>

record queue_item =
  item_id :: int
  item_url :: string

text \<open>An instance dictionary and a row of table \<^verbatim>\<open>instances\<close>.\<close>

record inst =
  inst_id :: int
  inst_url :: string
  rtsp_port :: int
  http_port :: int
  sink_name :: string
  source_name :: string
  pid :: int

text \<open>The controller object together with the database file. Each table is the list of
  its rows in rowid order.\<close>

record controller =
  settings :: settings
  queue :: "queue_item list"
  instances :: "inst list"
  next_instance_id :: int
  db_queue :: "queue_item list"
  db_instances :: "inst list"

text \<open>Exceptions that the modelled paths can raise.\<close>

datatype error = OverflowError | OSError | IntegrityError

text \<open>The outcome of \<^verbatim>\<open>os.kill(pid, sig)\<close>: it returns, raises
  \<^verbatim>\<open>ProcessLookupError\<close>, or raises something else (for instance
  \<^verbatim>\<open>PermissionError\<close>).\<close>

datatype kill_outcome = Signalled | ProcessLookupError | KillError

text \<open>The operating system as one call sees it: \<open>connect_ex w p\<close> is the error code of
  \<^verbatim>\<open>connect_ex(('localhost', p))\<close> (\<open>None\<close> when the call raises), \<open>popen w\<close>
  the pid of the launched pipeline (\<open>None\<close> when opening the log file or
  \<^verbatim>\<open>subprocess.Popen\<close> raises), \<open>os_kill w p sig\<close> the outcome of a signal.\<close>

record world =
  connect_ex :: "int \<Rightarrow> int option"
  popen :: "int option"
  os_kill :: "int \<Rightarrow> int \<Rightarrow> kill_outcome"

definition SIGTERM :: int where
  "SIGTERM = 15"

subsection \<open>Decimal rendering of integers (\<^verbatim>\<open>f"ts_sink_{instance_id}"\<close>)\<close>

fun str_nat :: "nat \<Rightarrow> string" where
  "str_nat n =
     (if n < 10 then [char_of (48 + n)]
      else str_nat (n div 10) @ [char_of (48 + n mod 10)])"

declare str_nat.simps [simp del]

definition str_int :: "int \<Rightarrow> string" where
  "str_int i = (if i < 0 then CHR ''-'' # str_nat (nat (- i)) else str_nat (nat i))"

subsection \<open>The database tables\<close>

text \<open>\<^verbatim>\<open>INSERT INTO queue (url) VALUES (?)\<close> on an \<^verbatim>\<open>INTEGER PRIMARY KEY\<close> column
  without \<^verbatim>\<open>AUTOINCREMENT\<close>: the new rowid is one more than the largest rowid in the
  table, and 1 in an empty table. \<^verbatim>\<open>db_op\<close> returns \<^verbatim>\<open>lastrowid\<close>.\<close>

definition next_rowid :: "int list \<Rightarrow> int" where
  "next_rowid ids = (if ids = [] then 1 else Max (set ids) + 1)"

definition db_insert_queue :: "queue_item list \<Rightarrow> string \<Rightarrow> queue_item list \<times> int" where
  "db_insert_queue tbl url =
     (let i = next_rowid (map item_id tbl)
      in (tbl @ [\<lparr>item_id = i, item_url = url\<rparr>], i))"

text \<open>\<^verbatim>\<open>INSERT INTO instances VALUES (?,?,?,?,?,?,?,CURRENT_TIMESTAMP)\<close> with an explicit
  primary key: a key that is already in the table raises \<^verbatim>\<open>sqlite3.IntegrityError\<close>.\<close>

definition db_insert_instance :: "inst list \<Rightarrow> inst \<Rightarrow> error + inst list" where
  "db_insert_instance tbl r =
     (if inst_id r \<in> set (map inst_id tbl) then Inl IntegrityError
      else Inr (insort_key inst_id r tbl))"

text \<open>\<^verbatim>\<open>SELECT id, url FROM queue ORDER BY id\<close>.\<close>

definition load_queue :: "queue_item list \<Rightarrow> queue_item list" where
  "load_queue tbl = sort_key item_id tbl"

text \<open>\<^verbatim>\<open>SELECT ... FROM instances\<close>: a scan of the table.\<close>

definition load_instances :: "inst list \<Rightarrow> inst list" where
  "load_instances tbl = tbl"

subsection \<open>Queue operations\<close>

text \<open>\<^verbatim>\<open>url.startswith(('http://', 'https://'))\<close>.\<close>

definition valid_url :: "string \<Rightarrow> bool" where
  "valid_url url \<longleftrightarrow> prefix ''http://'' url \<or> prefix ''https://'' url"

definition add_to_queue :: "controller \<Rightarrow> string \<Rightarrow> controller \<times> bool" where
  "add_to_queue s url =
     (if \<not> valid_url url then (s, False)
      else
        (let (tbl, queue_id) = db_insert_queue (db_queue s) url
         in (s\<lparr>db_queue := tbl,
                queue := queue s @ [\<lparr>item_id = queue_id, item_url = url\<rparr>]\<rparr>, True)))"

definition remove_from_queue :: "controller \<Rightarrow> int \<Rightarrow> controller" where
  "remove_from_queue s queue_id =
     s\<lparr>db_queue := filter (\<lambda>r. item_id r \<noteq> queue_id) (db_queue s),
       queue := filter (\<lambda>item. item_id item \<noteq> queue_id) (queue s)\<rparr>"

subsection \<open>Starting an instance\<close>

text \<open>\<^verbatim>\<open>check_port_availability\<close>: \<^verbatim>\<open>connect_ex\<close> refuses a port outside 0..65535
  with \<^verbatim>\<open>OverflowError\<close>; otherwise the port is available when the connection attempt
  fails (a non-zero error code).\<close>

definition check_port_availability :: "world \<Rightarrow> int \<Rightarrow> error + bool" where
  "check_port_availability w port =
     (if port < 0 \<or> 65535 < port then Inl OverflowError
      else (case connect_ex w port of None \<Rightarrow> Inl OSError | Some rc \<Rightarrow> Inr (rc \<noteq> 0)))"

text \<open>The body of the \<^verbatim>\<open>try\<close> block of \<^verbatim>\<open>start_taby\<close>. The title lookup and the
  PulseAudio renaming catch their own exceptions and touch no controller state.\<close>

definition start_taby_try :: "controller \<Rightarrow> world \<Rightarrow> string \<Rightarrow> int \<Rightarrow> error + (controller \<times> bool)" where
  "start_taby_try s w url instance_id =
     (let rtsp = rtsp_base_port (settings s) + instance_id * port_increment (settings s);
          http = http_base_port (settings s) + instance_id * port_increment (settings s)
      in case check_port_availability w rtsp of
           Inl e \<Rightarrow> Inl e
         | Inr False \<Rightarrow> Inr (s, False)
         | Inr True \<Rightarrow>
            (case check_port_availability w http of
               Inl e \<Rightarrow> Inl e
             | Inr False \<Rightarrow> Inr (s, False)
             | Inr True \<Rightarrow>
                (case popen w of
                   None \<Rightarrow> Inl OSError
                 | Some p \<Rightarrow>
                    (let i = \<lparr>inst_id = instance_id, inst_url = url, rtsp_port = rtsp,
                              http_port = http,
                              sink_name = ''ts_sink_'' @ str_int instance_id,
                              source_name = ''TS_Bot_'' @ str_int instance_id, pid = p\<rparr>
                     in case db_insert_instance (db_instances s) i of
                          Inl e \<Rightarrow> Inl e
                        | Inr tbl \<Rightarrow>
                            Inr (s\<lparr>db_instances := tbl, instances := instances s @ [i]\<rparr>,
                                 True)))))"

text \<open>\<^verbatim>\<open>except Exception: return False\<close>. No exception is raised after the first
  mutation, so the state at the handler is the state at entry.\<close>

definition start_taby :: "controller \<Rightarrow> world \<Rightarrow> string \<Rightarrow> int \<Rightarrow> controller \<times> bool" where
  "start_taby s w url instance_id =
     (case start_taby_try s w url instance_id of Inl e \<Rightarrow> (s, False) | Inr r \<Rightarrow> r)"

definition start_next :: "controller \<Rightarrow> world \<Rightarrow> controller \<times> bool" where
  "start_next s w =
     (case queue s of
        [] \<Rightarrow> (s, False)
      | next_item # rest \<Rightarrow>
          if max_concurrent (settings s) \<le> int (length (instances s)) then (s, False)
          else
            (case start_taby s w (item_url next_item) (next_instance_id s) of
               (s', True) \<Rightarrow>
                 (remove_from_queue (s'\<lparr>next_instance_id := next_instance_id s' + 1\<rparr>)
                    (item_id next_item), True)
             | (s', False) \<Rightarrow> (s', False)))"

subsection \<open>Stopping and reclaiming instances\<close>

definition stop_instance :: "controller \<Rightarrow> world \<Rightarrow> int \<Rightarrow> controller \<times> bool" where
  "stop_instance s w instance_id =
     (case find (\<lambda>i. inst_id i = instance_id) (instances s) of
        None \<Rightarrow> (s, False)
      | Some i \<Rightarrow>
         (case os_kill w (pid i) SIGTERM of
            KillError \<Rightarrow> (s, False)
          | _ \<Rightarrow>
             (s\<lparr>db_instances := filter (\<lambda>r. inst_id r \<noteq> instance_id) (db_instances s),
                 instances := filter (\<lambda>i. inst_id i \<noteq> instance_id) (instances s)\<rparr>, True)))"

text \<open>The loop of \<^verbatim>\<open>clean_instances\<close> runs over the copy \<^verbatim>\<open>list(self.instances)\<close>
  taken before the first iteration.\<close>

fun clean_loop :: "world \<Rightarrow> inst list \<Rightarrow> controller \<Rightarrow> controller" where
  "clean_loop w [] s = s"
| "clean_loop w (i # rest) s =
     clean_loop w rest
       (case os_kill w (pid i) 0 of
          ProcessLookupError \<Rightarrow>
            s\<lparr>db_instances := filter (\<lambda>r. inst_id r \<noteq> inst_id i) (db_instances s),
              instances := filter (\<lambda>j. inst_id j \<noteq> inst_id i) (instances s)\<rparr>
        | _ \<Rightarrow> s)"

definition clean_instances :: "controller \<Rightarrow> world \<Rightarrow> controller" where
  "clean_instances s w = clean_loop w (instances s) s"

text \<open>\<^verbatim>\<open>stop-all\<close>: \<^verbatim>\<open>for instance in list(self.instances): self.stop_instance(...)\<close>.\<close>

fun stop_all_loop :: "world \<Rightarrow> inst list \<Rightarrow> controller \<Rightarrow> controller" where
  "stop_all_loop w [] s = s"
| "stop_all_loop w (i # rest) s = stop_all_loop w rest (fst (stop_instance s w (inst_id i)))"

definition stop_all :: "controller \<Rightarrow> world \<Rightarrow> controller" where
  "stop_all s w = stop_all_loop w (instances s) s"

subsection \<open>Construction\<close>

text \<open>\<^verbatim>\<open>__init__\<close> on a database file with the given tables. \<open>urls\<close> are the
  \<^verbatim>\<open>--url\<close> arguments followed by the playlist lines that \<^verbatim>\<open>load_playlist\<close> passes to
  \<^verbatim>\<open>add_to_queue\<close>. The attributes \<^verbatim>\<open>instances\<close> and \<^verbatim>\<open>next_instance_id\<close> do not exist
  before they are assigned; \<open>s0\<close> gives them a value that nothing reads.\<close>

fun add_all :: "controller \<Rightarrow> string list \<Rightarrow> controller" where
  "add_all s [] = s"
| "add_all s (url # urls) = add_all (fst (add_to_queue s url)) urls"

definition max_default0 :: "int list \<Rightarrow> int" where
  "max_default0 ids = (if ids = [] then 0 else Max (set ids))"

definition init :: "settings \<Rightarrow> queue_item list \<Rightarrow> inst list \<Rightarrow> string list \<Rightarrow> world \<Rightarrow> controller" where
  "init st tq ti urls w =
     (let s0 = \<lparr>settings = st, queue = load_queue tq, instances = [], next_instance_id = 0,
                db_queue = tq, db_instances = ti\<rparr>;
          s1 = add_all s0 urls;
          s2 = s1\<lparr>instances := load_instances (db_instances s1)\<rparr>;
          s3 = s2\<lparr>next_instance_id := max_default0 (map inst_id (instances s2)) + 1\<rparr>
      in clean_instances s3 w)"

text \<open>A controller built on an empty database with nothing to enqueue.\<close>

definition empty_controller :: "settings \<Rightarrow> controller" where
  "empty_controller st =
     \<lparr>settings = st, queue = [], instances = [], next_instance_id = 1,
      db_queue = [], db_instances = []\<rparr>"

subsection \<open>The command surface\<close>

datatype command = Add string | StartNext | Stop int | StopAll | Clean | Remove int

fun step :: "controller \<Rightarrow> command \<times> world \<Rightarrow> controller" where
  "step s (Add url, w) = fst (add_to_queue s url)"
| "step s (StartNext, w) = fst (start_next s w)"
| "step s (Stop i, w) = fst (stop_instance s w i)"
| "step s (StopAll, w) = stop_all s w"
| "step s (Clean, w) = clean_instances s w"
| "step s (Remove i, w) = remove_from_queue s i"

definition run :: "controller \<Rightarrow> (command \<times> world) list \<Rightarrow> controller" where
  "run s cs = foldl step s cs"

section \<open>The older script taby-controller.py\<close>

text \<open>The older script keeps no instance list in memory: its instances are the rows of
  table \<^verbatim>\<open>taby_instances\<close>, each with a status, and its queue is a list of URLs.
  Exceptions are not caught inside its methods; a method that raises is modelled by a
  result in \<open>Inl\<close> or by \<open>Some\<close> error beside the state reached when it raised.\<close>

record legacy_row =
  row_id :: int
  row_pid :: int
  row_url :: string
  row_name :: string
  row_sink_name :: string
  row_source_name :: string
  row_rtsp_port :: int
  row_http_port :: int
  row_created_at :: int
  row_status :: string

text \<open>The script object with its database. Table \<^verbatim>\<open>url_queue\<close> is only ever written;
  its rows are kept as the list of their URLs.\<close>

record legacy =
  legacy_settings :: settings
  urls_queue :: "string list"
  taby_instances :: "legacy_row list"
  url_queue :: "string list"

text \<open>What the older script needs from outside in addition: the name that
  \<^verbatim>\<open>get_name\<close> builds from the title lookup and the clock, and
  \<^verbatim>\<open>CURRENT_TIMESTAMP\<close>.\<close>

record legacy_world = world +
  get_name :: string
  current_timestamp :: int

datatype legacy_error = PopenError | SignalError | TypeError | DuplicateKey

text \<open>\<^verbatim>\<open>SELECT COUNT(*) FROM taby_instances WHERE status = "Running"\<close>.\<close>

definition running_count :: "legacy \<Rightarrow> int" where
  "running_count s = int (length (filter (\<lambda>r. row_status r = ''Running'') (taby_instances s)))"

definition legacy_start_taby :: "legacy \<Rightarrow> legacy_world \<Rightarrow> string \<Rightarrow> int \<Rightarrow> legacy_error + legacy" where
  "legacy_start_taby s w url instance_id =
     (let rtsp = rtsp_base_port (legacy_settings s) + instance_id * port_increment (legacy_settings s);
          http = http_base_port (legacy_settings s) + instance_id * port_increment (legacy_settings s);
          name = get_name w
      in case popen w of
           None \<Rightarrow> Inl PopenError
         | Some p \<Rightarrow>
            if instance_id \<in> set (map row_id (taby_instances s)) then Inl DuplicateKey
            else Inr (s\<lparr>taby_instances :=
                   insort_key row_id
                     \<lparr>row_id = instance_id, row_pid = p, row_url = url, row_name = name,
                      row_sink_name = take 15 (name @ ''_sink''),
                      row_source_name = take 15 (name @ ''_source''),
                      row_rtsp_port = rtsp, row_http_port = http,
                      row_created_at = current_timestamp w, row_status = ''Running''\<rparr>
                     (taby_instances s)\<rparr>))"

definition legacy_stop_taby :: "legacy \<Rightarrow> legacy_world \<Rightarrow> int \<Rightarrow> legacy_error + (legacy \<times> bool)" where
  "legacy_stop_taby s w instance_id =
     (case find (\<lambda>r. row_id r = instance_id) (taby_instances s) of
        None \<Rightarrow> Inr (s, False)
      | Some r \<Rightarrow>
         (case os_kill w (row_pid r) SIGTERM of
            KillError \<Rightarrow> Inl SignalError
          | _ \<Rightarrow> Inr (s\<lparr>taby_instances :=
                        filter (\<lambda>r. row_id r \<noteq> instance_id) (taby_instances s)\<rparr>, True)))"

text \<open>\<^verbatim>\<open>update_statuses\<close> marks the rows whose process is gone; it deletes nothing.\<close>

fun update_statuses_loop :: "legacy_world \<Rightarrow> legacy_row list \<Rightarrow> legacy \<Rightarrow> legacy_error + legacy" where
  "update_statuses_loop w [] s = Inr s"
| "update_statuses_loop w (r # rest) s =
     (case os_kill w (row_pid r) 0 of
        Signalled \<Rightarrow> update_statuses_loop w rest s
      | ProcessLookupError \<Rightarrow>
          update_statuses_loop w rest
            (s\<lparr>taby_instances :=
                 map (\<lambda>x. if row_id x = row_id r then x\<lparr>row_status := ''Dead''\<rparr> else x)
                   (taby_instances s)\<rparr>)
      | KillError \<Rightarrow> Inl SignalError)"

definition legacy_update_statuses :: "legacy \<Rightarrow> legacy_world \<Rightarrow> legacy_error + legacy" where
  "legacy_update_statuses s w =
     update_statuses_loop w (filter (\<lambda>r. row_status r = ''Running'') (taby_instances s)) s"

text \<open>\<^verbatim>\<open>SELECT COALESCE(MAX(id)+1, 0) FROM taby_instances\<close>.\<close>

definition legacy_next_id :: "legacy_row list \<Rightarrow> int" where
  "legacy_next_id rows = (if rows = [] then 0 else Max (set (map row_id rows)) + 1)"

text \<open>\<^verbatim>\<open>start_next\<close> of the older script. At capacity it stops the row that comes first
  in \<^verbatim>\<open>ORDER BY created_at\<close> (rows with equal time stamps stay in table order; on an
  empty table \<^verbatim>\<open>fetchone()[0]\<close> raises \<^verbatim>\<open>TypeError\<close>), then pops the head of the
  queue and starts it.\<close>

definition legacy_start_next :: "legacy \<Rightarrow> legacy_world \<Rightarrow> legacy \<times> legacy_error option" where
  "legacy_start_next s w =
     (if urls_queue s = [] then (s, None)
      else
        (case (if max_concurrent (legacy_settings s) \<le> running_count s
               then (case sort_key row_created_at (taby_instances s) of
                       [] \<Rightarrow> Inl TypeError
                     | oldest # _ \<Rightarrow> map_sum id fst (legacy_stop_taby s w (row_id oldest)))
               else Inr s) of
           Inl e \<Rightarrow> (s, Some e)
         | Inr s1 \<Rightarrow>
            (let url = hd (urls_queue s1);
                 s2 = s1\<lparr>urls_queue := tl (urls_queue s1)\<rparr>;
                 next_id = legacy_next_id (taby_instances s2)
             in case legacy_start_taby s2 w url next_id of
                  Inl e \<Rightarrow> (s2, Some e)
                | Inr s3 \<Rightarrow> (s3, None))))"

text \<open>The commands \<^verbatim>\<open>add\<close> and \<^verbatim>\<open>clean\<close> of the interactive loop.\<close>

definition legacy_add :: "legacy \<Rightarrow> legacy_world \<Rightarrow> string \<Rightarrow> legacy \<times> legacy_error option" where
  "legacy_add s w arg =
     (let s1 = s\<lparr>urls_queue := urls_queue s @ [arg], url_queue := url_queue s @ [arg]\<rparr>
      in if running_count s1 < max_concurrent (legacy_settings s1) then legacy_start_next s1 w
         else (s1, None))"

definition legacy_clean :: "legacy \<Rightarrow> legacy" where
  "legacy_clean s = s\<lparr>taby_instances := filter (\<lambda>r. row_status r \<noteq> ''Dead'') (taby_instances s)\<rparr>"

text \<open>The older script on an empty database, and a world for it.\<close>

definition legacy_empty :: "settings \<Rightarrow> legacy" where
  "legacy_empty st = \<lparr>legacy_settings = st, urls_queue = [], taby_instances = [], url_queue = []\<rparr>"

definition legacy_launch :: "int \<Rightarrow> int \<Rightarrow> legacy_world" where
  "legacy_launch p t =
     \<lparr>connect_ex = (\<lambda>port. Some 111), popen = Some p, os_kill = (\<lambda>p sig. Signalled),
      get_name = ''taby'', current_timestamp = t\<rparr>"

section \<open>Notions used to state the properties\<close>

text \<open>The invariant of the controller. Both queue lists are strictly ordered by rowid, the
  instance lists strictly by instance id, the in-memory lists mirror the tables, and every
  instance id in use is below the counter. It holds after construction and every command
  keeps it (lemmas \<open>wf_init\<close>, \<open>wf_step\<close>, \<open>wf_run\<close> below).\<close>

definition wf :: "controller \<Rightarrow> bool" where
  "wf s \<longleftrightarrow>
     sorted_wrt (<) (map item_id (queue s)) \<and> db_queue s = queue s \<and>
     sorted_wrt (<) (map inst_id (instances s)) \<and> db_instances s = instances s \<and>
     (\<forall>i\<in>set (instances s). inst_id i < next_instance_id s)"

text \<open>The dictionary that \<^verbatim>\<open>start_taby\<close> builds for instance \<open>i\<close> with pid \<open>p\<close>, and
  the controller after \<^verbatim>\<open>start_next\<close> has admitted \<open>item\<close>.\<close>

definition spawned :: "settings \<Rightarrow> string \<Rightarrow> int \<Rightarrow> int \<Rightarrow> inst" where
  "spawned st url i p =
     \<lparr>inst_id = i, inst_url = url,
      rtsp_port = rtsp_base_port st + i * port_increment st,
      http_port = http_base_port st + i * port_increment st,
      sink_name = ''ts_sink_'' @ str_int i, source_name = ''TS_Bot_'' @ str_int i, pid = p\<rparr>"

definition admitted :: "controller \<Rightarrow> queue_item \<Rightarrow> int \<Rightarrow> controller" where
  "admitted s item p =
     (let i = spawned (settings s) (item_url item) (next_instance_id s) p
      in s\<lparr>db_instances := insort_key inst_id i (db_instances s),
           instances := instances s @ [i],
           next_instance_id := next_instance_id s + 1,
           db_queue := filter (\<lambda>r. item_id r \<noteq> item_id item) (db_queue s),
           queue := filter (\<lambda>r. item_id r \<noteq> item_id item) (queue s)\<rparr>)"

text \<open>The liveness test of \<^verbatim>\<open>clean_instances\<close>: signal 0 does not raise
  \<^verbatim>\<open>ProcessLookupError\<close>.\<close>

definition is_alive :: "world \<Rightarrow> inst \<Rightarrow> bool" where
  "is_alive w i \<longleftrightarrow> os_kill w (pid i) 0 \<noteq> ProcessLookupError"

text \<open>The instance ids present after a command and not before it, and the ids handed out
  along a run, in order.\<close>

definition new_ids :: "controller \<Rightarrow> controller \<Rightarrow> int list" where
  "new_ids s s' = filter (\<lambda>i. i \<notin> set (map inst_id (instances s))) (map inst_id (instances s'))"

fun assigned_ids :: "controller \<Rightarrow> (command \<times> world) list \<Rightarrow> int list" where
  "assigned_ids s [] = []"
| "assigned_ids s (cw # cs) = new_ids s (step s cw) @ assigned_ids (step s cw) cs"

text \<open>Every instance carries the ports that the allocation formula gives for its id under
  the current settings.\<close>

definition ports_ok :: "controller \<Rightarrow> bool" where
  "ports_ok s \<longleftrightarrow>
     (\<forall>i\<in>set (instances s).
        rtsp_port i = rtsp_base_port (settings s) + inst_id i * port_increment (settings s) \<and>
        http_port i = http_base_port (settings s) + inst_id i * port_increment (settings s))"

subsection \<open>Concrete settings, worlds and command sequences\<close>

text \<open>The argparse defaults, and variants with a limit of one instance
  (\<^verbatim>\<open>--max-concurrent 1\<close>), with a port increment of zero
  (\<^verbatim>\<open>--port-increment 0\<close>) and with both base ports moved down by ten
  (\<^verbatim>\<open>--rtsp-base-port 8544 --http-base-port 8070\<close>).\<close>

definition default_settings :: settings where
  "default_settings =
     \<lparr>rtsp_base_port = 8554, http_base_port = 8080, port_increment = 10, max_concurrent = 5\<rparr>"

definition single_settings :: settings where
  "single_settings = default_settings\<lparr>max_concurrent := 1\<rparr>"

definition flat_settings :: settings where
  "flat_settings = default_settings\<lparr>port_increment := 0\<rparr>"

definition moved_settings :: settings where
  "moved_settings = default_settings\<lparr>rtsp_base_port := 8544, http_base_port := 8070\<rparr>"

text \<open>A world in which nothing listens on any port (\<^verbatim>\<open>ECONNREFUSED\<close>), the pipeline
  starts with pid \<open>p\<close> and every signal is delivered; one in which every probed port is
  taken; and one in which the process with pid 100 has exited.\<close>

definition launch_world :: "int \<Rightarrow> world" where
  "launch_world p =
     \<lparr>connect_ex = (\<lambda>port. Some 111), popen = Some p, os_kill = (\<lambda>p sig. Signalled)\<rparr>"

definition busy_world :: world where
  "busy_world = \<lparr>connect_ex = (\<lambda>port. Some 0), popen = Some 7, os_kill = (\<lambda>p sig. Signalled)\<rparr>"

definition reaper_world :: world where
  "reaper_world =
     \<lparr>connect_ex = (\<lambda>port. Some 111), popen = None,
      os_kill = (\<lambda>p sig. if p = 100 then ProcessLookupError else Signalled)\<rparr>"

text \<open>Three URLs are queued, two are admitted, then instance 2 is stopped.\<close>

definition demo_trace :: "(command \<times> world) list" where
  "demo_trace =
     [(Add ''http://a'', launch_world 0), (Add ''https://b'', launch_world 0),
      (Add ''http://c'', launch_world 0),
      (StartNext, launch_world 100), (StartNext, launch_world 101), (Stop 2, launch_world 0)]"

text \<open>For the older script: a world in which the process with pid 100 has exited and
  nothing can be launched, and the state after \<^verbatim>\<open>add http://a\<close> and
  \<^verbatim>\<open>add http://b\<close> with a limit of one instance.\<close>

definition legacy_reaper :: legacy_world where
  "legacy_reaper =
     \<lparr>connect_ex = (\<lambda>port. Some 111), popen = None,
      os_kill = (\<lambda>p sig. if p = 100 then ProcessLookupError else Signalled),
      get_name = ''taby'', current_timestamp = 30\<rparr>"

definition legacy_full :: legacy where
  "legacy_full =
     fst (legacy_add (fst (legacy_add (legacy_empty single_settings) (legacy_launch 100 10) ''http://a''))
            (legacy_launch 0 11) ''http://b'')"

section \<open>Effect of each operation\<close>

lemma insort_key_greatest:
  "\<forall>x\<in>set xs. f x < f a \<Longrightarrow> insort_key f a xs = xs @ [a]"
  by (induction xs) auto

lemma filter_head_strict:
  fixes f :: "'a \<Rightarrow> int"
  shows "sorted_wrt (<) (map f (x # xs)) \<Longrightarrow> filter (\<lambda>y. f y \<noteq> f x) (x # xs) = xs"
  by (auto simp: filter_id_conv)

lemma sorted_wrt_filter_map:
  "sorted_wrt (<) (map f xs) \<Longrightarrow> sorted_wrt (<) (map f (filter P xs))"
  by (induction xs) auto

lemma start_taby_cases:
  "start_taby s w url i = (s, False) \<or>
   (\<exists>p. popen w = Some p \<and> i \<notin> inst_id ` set (db_instances s) \<and>
        start_taby s w url i =
          (s\<lparr>db_instances := insort_key inst_id (spawned (settings s) url i p) (db_instances s),
             instances := instances s @ [spawned (settings s) url i p]\<rparr>, True))"
  by (auto simp: start_taby_def start_taby_try_def spawned_def Let_def db_insert_instance_def
      split: sum.splits bool.splits option.splits)

lemma start_next_cases:
  "start_next s w = (s, False) \<or>
   (\<exists>item rest p. queue s = item # rest \<and>
        int (length (instances s)) < max_concurrent (settings s) \<and> popen w = Some p \<and>
        start_next s w = (admitted s item p, True))"
proof (cases "queue s")
  case Nil
  then show ?thesis by (simp add: start_next_def)
next
  case (Cons item rest)
  show ?thesis
  proof (cases "max_concurrent (settings s) \<le> int (length (instances s))")
    case True
    with Cons show ?thesis by (simp add: start_next_def)
  next
    case False
    from start_taby_cases [of s w "item_url item" "next_instance_id s"]
    show ?thesis
    proof (elim disjE exE conjE)
      assume "start_taby s w (item_url item) (next_instance_id s) = (s, False)"
      with Cons False show ?thesis by (simp add: start_next_def)
    next
      fix p
      assume "popen w = Some p"
        and "start_taby s w (item_url item) (next_instance_id s) =
          (s\<lparr>db_instances := insort_key inst_id (spawned (settings s) (item_url item) (next_instance_id s) p) (db_instances s),
             instances := instances s @ [spawned (settings s) (item_url item) (next_instance_id s) p]\<rparr>, True)"
      with Cons False show ?thesis
        by (simp add: start_next_def remove_from_queue_def admitted_def Let_def)
    qed
  qed
qed

lemma wf_empty: "wf (empty_controller st)"
  by (simp add: wf_def empty_controller_def)

lemma next_rowid_greater: "x \<in> set ids \<Longrightarrow> x < next_rowid ids"
proof -
  assume x: "x \<in> set ids"
  then have "x \<le> Max (set ids)" by simp
  with x show ?thesis by (auto simp: next_rowid_def)
qed

lemma add_to_queue_cases:
  "add_to_queue s url = (s, False) \<and> \<not> valid_url url \<or>
   valid_url url \<and> add_to_queue s url =
     (s\<lparr>db_queue := db_queue s @ [\<lparr>item_id = next_rowid (map item_id (db_queue s)), item_url = url\<rparr>],
        queue := queue s @ [\<lparr>item_id = next_rowid (map item_id (db_queue s)), item_url = url\<rparr>]\<rparr>, True)"
  by (simp add: add_to_queue_def db_insert_queue_def Let_def)

lemma wf_add_to_queue: "wf s \<Longrightarrow> wf (fst (add_to_queue s url))"
  using add_to_queue_cases [of s url] next_rowid_greater [of _ "map item_id (queue s)"]
  by (auto simp: wf_def sorted_wrt_append)

lemma wf_remove_from_queue: "wf s \<Longrightarrow> wf (remove_from_queue s i)"
  by (simp add: wf_def remove_from_queue_def sorted_wrt_filter_map)

lemma admitted_wf:
  assumes "wf s"
  shows "admitted s item p =
     s\<lparr>db_instances := instances s @ [spawned (settings s) (item_url item) (next_instance_id s) p],
       instances := instances s @ [spawned (settings s) (item_url item) (next_instance_id s) p],
       next_instance_id := next_instance_id s + 1,
       db_queue := filter (\<lambda>r. item_id r \<noteq> item_id item) (queue s),
       queue := filter (\<lambda>r. item_id r \<noteq> item_id item) (queue s)\<rparr>"
proof -
  have "insort_key inst_id (spawned (settings s) (item_url item) (next_instance_id s) p) (instances s)
      = instances s @ [spawned (settings s) (item_url item) (next_instance_id s) p]"
    using assms by (intro insort_key_greatest) (simp add: wf_def spawned_def)
  with assms show ?thesis by (simp add: admitted_def Let_def wf_def)
qed

lemma wf_admitted: "wf s \<Longrightarrow> wf (admitted s item p)"
  by (simp add: admitted_wf) (force simp: wf_def sorted_wrt_append sorted_wrt_filter_map spawned_def)

lemma wf_start_next: "wf s \<Longrightarrow> wf (fst (start_next s w))"
  using start_next_cases [of s w] by (auto simp: wf_admitted)

lemma stop_instance_cases:
  "stop_instance s w i = (s, False) \<or>
   i \<in> inst_id ` set (instances s) \<and>
   stop_instance s w i =
     (s\<lparr>db_instances := filter (\<lambda>r. inst_id r \<noteq> i) (db_instances s),
        instances := filter (\<lambda>r. inst_id r \<noteq> i) (instances s)\<rparr>, True)"
  by (auto simp: stop_instance_def find_Some_iff split: option.splits kill_outcome.splits)

lemma wf_stop_instance: "wf s \<Longrightarrow> wf (fst (stop_instance s w i))"
  using stop_instance_cases [of s w i]
  by (auto simp: wf_def sorted_wrt_filter_map)

lemma wf_stop_all_loop: "wf s \<Longrightarrow> wf (stop_all_loop w xs s)"
  by (induction xs arbitrary: s) (simp_all add: wf_stop_instance)

lemma wf_clean_loop: "wf s \<Longrightarrow> wf (clean_loop w xs s)"
proof (induction xs arbitrary: s)
  case Nil
  then show ?case by simp
next
  case (Cons i xs)
  have "wf (case os_kill w (pid i) 0 of
          ProcessLookupError \<Rightarrow>
            s\<lparr>db_instances := filter (\<lambda>r. inst_id r \<noteq> inst_id i) (db_instances s),
              instances := filter (\<lambda>j. inst_id j \<noteq> inst_id i) (instances s)\<rparr>
        | _ \<Rightarrow> s)"
    using Cons.prems by (auto simp: wf_def sorted_wrt_filter_map split: kill_outcome.splits)
  then show ?case using Cons.IH by simp
qed

lemma wf_step: "wf s \<Longrightarrow> wf (step s cw)"
proof (cases cw)
  case (Pair c w)
  assume "wf s"
  then show ?thesis unfolding Pair
    by (cases c)
      (simp_all add: wf_add_to_queue wf_start_next wf_stop_instance wf_stop_all_loop
        wf_clean_loop wf_remove_from_queue stop_all_def clean_instances_def)
qed

lemma wf_run: "wf s \<Longrightarrow> wf (run s cs)"
  unfolding run_def by (induction cs arbitrary: s) (simp_all add: wf_step)

lemma clean_loop_frame:
  "settings (clean_loop w xs s) = settings s \<and> queue (clean_loop w xs s) = queue s \<and>
   db_queue (clean_loop w xs s) = db_queue s \<and>
   next_instance_id (clean_loop w xs s) = next_instance_id s"
  by (induction xs arbitrary: s) (simp_all split: kill_outcome.splits)

lemma clean_loop_instances:
  "instances (clean_loop w xs s) =
     filter (\<lambda>j. inst_id j \<notin> inst_id ` {i \<in> set xs. \<not> is_alive w i}) (instances s)"
proof (induction xs arbitrary: s)
  case Nil
  then show ?case by simp
next
  case (Cons i xs)
  show ?case
  proof (cases "is_alive w i")
    case True
    then have "{k \<in> set (i # xs). \<not> is_alive w k} = {k \<in> set xs. \<not> is_alive w k}" by auto
    with True Cons.IH show ?thesis
      by (auto simp: is_alive_def split: kill_outcome.splits)
  next
    case False
    then have "{k \<in> set (i # xs). \<not> is_alive w k} = insert i {k \<in> set xs. \<not> is_alive w k}" by auto
    with False Cons.IH show ?thesis
      by (auto simp: is_alive_def intro: filter_cong)
  qed
qed

lemma clean_loop_db_instances:
  "db_instances (clean_loop w xs s) =
     filter (\<lambda>j. inst_id j \<notin> inst_id ` {i \<in> set xs. \<not> is_alive w i}) (db_instances s)"
proof (induction xs arbitrary: s)
  case Nil
  then show ?case by simp
next
  case (Cons i xs)
  show ?case
  proof (cases "is_alive w i")
    case True
    then have "{k \<in> set (i # xs). \<not> is_alive w k} = {k \<in> set xs. \<not> is_alive w k}" by auto
    with True Cons.IH show ?thesis
      by (auto simp: is_alive_def split: kill_outcome.splits)
  next
    case False
    then have "{k \<in> set (i # xs). \<not> is_alive w k} = insert i {k \<in> set xs. \<not> is_alive w k}" by auto
    with False Cons.IH show ?thesis
      by (auto simp: is_alive_def intro: filter_cong)
  qed
qed

lemma dead_ids_distinct:
  assumes "distinct (map inst_id xs)" and "j \<in> set xs"
  shows "inst_id j \<notin> inst_id ` {i \<in> set xs. \<not> is_alive w i} \<longleftrightarrow> is_alive w j"
  using assms by (auto simp: distinct_map inj_on_def)

lemma wf_distinct: "wf s \<Longrightarrow> distinct (map inst_id (instances s))"
  by (simp add: wf_def strict_sorted_iff)

lemma stop_all_loop_frame:
  "settings (stop_all_loop w xs s) = settings s \<and> queue (stop_all_loop w xs s) = queue s \<and>
   db_queue (stop_all_loop w xs s) = db_queue s \<and>
   next_instance_id (stop_all_loop w xs s) = next_instance_id s"
proof (induction xs arbitrary: s)
  case Nil
  then show ?case by simp
next
  case (Cons i xs)
  from stop_instance_cases [of s w "inst_id i"] Cons.IH [of "fst (stop_instance s w (inst_id i))"]
  show ?case by auto
qed

lemma stop_all_loop_instances:
  "\<exists>P. instances (stop_all_loop w xs s) = filter P (instances s)"
proof (induction xs arbitrary: s)
  case Nil
  have "instances s = filter (\<lambda>_. True) (instances s)" by simp
  then show ?case by (simp del: filter_True) blast
next
  case (Cons i xs)
  obtain P where P: "instances (stop_all_loop w xs (fst (stop_instance s w (inst_id i))))
      = filter P (instances (fst (stop_instance s w (inst_id i))))"
    using Cons.IH by blast
  from stop_instance_cases [of s w "inst_id i"]
  obtain Q where "instances (fst (stop_instance s w (inst_id i))) = filter Q (instances s)"
  proof
    assume "stop_instance s w (inst_id i) = (s, False)"
    then have "instances (fst (stop_instance s w (inst_id i))) = filter (\<lambda>_. True) (instances s)" by simp
    then show ?thesis using that by blast
  next
    assume "inst_id i \<in> inst_id ` set (instances s) \<and>
      stop_instance s w (inst_id i) =
      (s\<lparr>db_instances := filter (\<lambda>r. inst_id r \<noteq> inst_id i) (db_instances s),
         instances := filter (\<lambda>r. inst_id r \<noteq> inst_id i) (instances s)\<rparr>, True)"
    then have "instances (fst (stop_instance s w (inst_id i))) = filter (\<lambda>r. inst_id r \<noteq> inst_id i) (instances s)" by simp
    then show ?thesis using that by blast
  qed
  with P have "instances (stop_all_loop w (i # xs) s) = filter (\<lambda>x. Q x \<and> P x) (instances s)"
    by simp
  then show ?case by blast
qed

lemma step_settings_pair: "settings (step s (c, w)) = settings s"
proof (cases c)
  case (Add url)
  then show ?thesis using add_to_queue_cases [of s url] by auto
next
  case StartNext
  then show ?thesis using start_next_cases [of s w] by (auto simp: admitted_def Let_def)
next
  case (Stop i)
  then show ?thesis using stop_instance_cases [of s w i] by auto
next
  case StopAll
  then show ?thesis by (simp add: stop_all_def stop_all_loop_frame)
next
  case Clean
  then show ?thesis by (simp add: clean_instances_def clean_loop_frame)
next
  case (Remove i)
  then show ?thesis by (simp add: remove_from_queue_def)
qed

lemma step_settings: "settings (step s cw) = settings s"
  by (cases cw) (simp add: step_settings_pair)

lemma run_settings: "settings (run s cs) = settings s"
  unfolding run_def by (induction cs arbitrary: s) (simp_all add: step_settings)

lemma step_not_start:
  assumes "c \<noteq> StartNext"
  shows "\<exists>P. instances (step s (c, w)) = filter P (instances s)"
proof (cases c)
  case (Add url)
  have "instances (fst (add_to_queue s url)) = filter (\<lambda>_. True) (instances s)"
    using add_to_queue_cases [of s url] by auto
  with Add show ?thesis by (simp del: filter_True) blast
next
  case StartNext
  with assms show ?thesis by simp
next
  case (Stop i)
  from stop_instance_cases [of s w i]
  have "instances (fst (stop_instance s w i)) = filter (\<lambda>_. True) (instances s) \<or>
        instances (fst (stop_instance s w i)) = filter (\<lambda>r. inst_id r \<noteq> i) (instances s)"
    by auto
  with Stop show ?thesis by (simp del: filter_True) blast
next
  case StopAll
  then show ?thesis using stop_all_loop_instances [of w "instances s" s] by (simp add: stop_all_def)
next
  case Clean
  then show ?thesis by (simp add: clean_instances_def clean_loop_instances) blast
next
  case (Remove i)
  have "instances (remove_from_queue s i) = filter (\<lambda>_. True) (instances s)"
    by (simp add: remove_from_queue_def)
  with Remove show ?thesis by (simp del: filter_True) blast
qed

lemma step_not_start_next_id:
  "c \<noteq> StartNext \<Longrightarrow> next_instance_id (step s (c, w)) = next_instance_id s"
proof (cases c)
  case (Add url)
  then show ?thesis using add_to_queue_cases [of s url] by auto
next
  case (Stop i)
  then show ?thesis using stop_instance_cases [of s w i] by auto
qed (simp_all add: stop_all_def stop_all_loop_frame clean_instances_def clean_loop_frame remove_from_queue_def)

lemma step_bound:
  assumes "int (length (instances s)) \<le> max_concurrent (settings s)"
  shows "int (length (instances (step s cw))) \<le> max_concurrent (settings (step s cw))"
proof (cases cw)
  case (Pair c w)
  show ?thesis
  proof (cases "c = StartNext")
    case True
    from start_next_cases [of s w] show ?thesis
      using assms unfolding Pair True by (auto simp: admitted_def Let_def)
  next
    case False
    then obtain P where "instances (step s (c, w)) = filter P (instances s)"
      using step_not_start by blast
    then have "length (instances (step s (c, w))) \<le> length (instances s)" by simp
    with assms show ?thesis unfolding Pair by (simp add: step_settings)
  qed
qed

lemma run_bound:
  "int (length (instances s)) \<le> max_concurrent (settings s) \<Longrightarrow>
   int (length (instances (run s cs))) \<le> max_concurrent (settings (run s cs))"
  unfolding run_def by (induction cs arbitrary: s) (simp_all add: step_bound)

lemma start_next_False: "\<not> snd (start_next s w) \<Longrightarrow> fst (start_next s w) = s"
  using start_next_cases [of s w] by auto

lemma port_conflict_start_taby:
  assumes "connect_ex w (rtsp_base_port (settings s) + i * port_increment (settings s)) = Some 0
         \<or> connect_ex w (http_base_port (settings s) + i * port_increment (settings s)) = Some 0"
  shows "start_taby s w url i = (s, False)"
  using assms
  by (auto simp: start_taby_def start_taby_try_def check_port_availability_def Let_def
      split: sum.splits bool.splits option.splits)

lemma ports_ok_filter:
  "ports_ok s \<Longrightarrow> settings s' = settings s \<Longrightarrow> instances s' = filter P (instances s) \<Longrightarrow> ports_ok s'"
  by (simp add: ports_ok_def)

lemma ports_ok_step: 
  assumes "ports_ok s"
  shows "ports_ok (step s cw)"
proof (cases cw)
  case (Pair c w)
  show ?thesis
  proof (cases "c = StartNext")
    case True
    from start_next_cases [of s w] show ?thesis
      using assms unfolding Pair True
      by (auto simp: admitted_def Let_def ports_ok_def spawned_def)
  next
    case False
    then obtain P where "instances (step s (c, w)) = filter P (instances s)"
      using step_not_start by blast
    then have "ports_ok (step s (c, w))"
      using assms step_settings [of s "(c, w)"] by (rule ports_ok_filter [rotated 2])
    then show ?thesis unfolding Pair .
  qed
qed

lemma ports_ok_run: "ports_ok s \<Longrightarrow> ports_ok (run s cs)"
  unfolding run_def by (induction cs arbitrary: s) (simp_all add: ports_ok_step)

lemma start_taby_True:
  assumes "start_taby s w url i = (s', True)"
  shows "\<exists>p. instances s' = instances s @ [spawned (settings s) url i p]"
  using start_taby_cases [of s w url i] assms by auto

lemma new_ids_filter:
  "instances s' = filter P (instances s) \<Longrightarrow> new_ids s s' = []"
  by (auto simp: new_ids_def filter_empty_conv)

lemma new_ids_admitted:
  assumes "wf s"
  shows "new_ids s (admitted s item p) = [next_instance_id s]"
proof -
  have "\<forall>i\<in>set (instances s). inst_id i \<noteq> next_instance_id s"
    using assms by (auto simp: wf_def)
  then have "filter (\<lambda>i. i \<notin> inst_id ` set (instances s)) (map inst_id (instances s)) = []"
    "next_instance_id s \<notin> inst_id ` set (instances s)"
    by (auto simp: filter_empty_conv)
  then show ?thesis
    by (simp add: admitted_wf [OF assms] new_ids_def spawned_def)
qed

lemma new_ids_step:
  assumes "wf s"
  shows "new_ids s (step s cw) = [next_instance_id s .. next_instance_id (step s cw) - 1]"
proof (cases cw)
  case (Pair c w)
  show ?thesis
  proof (cases "c = StartNext")
    case True
    from start_next_cases [of s w] show ?thesis
    proof (elim disjE exE conjE)
      assume "start_next s w = (s, False)"
      moreover have "new_ids s s = []"
        by (rule new_ids_filter [of _ "\<lambda>_. True"]) simp
      ultimately show ?thesis unfolding Pair True by simp
    next
      fix item rest p
      assume "start_next s w = (admitted s item p, True)"
      moreover have "next_instance_id (admitted s item p) = next_instance_id s + 1"
        by (simp add: admitted_def Let_def)
      ultimately show ?thesis unfolding Pair True
        by (simp add: new_ids_admitted [OF assms])
    qed
  next
    case False
    then obtain P where "instances (step s (c, w)) = filter P (instances s)"
      using step_not_start by blast
    then have "new_ids s (step s (c, w)) = []" by (rule new_ids_filter)
    with False show ?thesis unfolding Pair by (simp add: step_not_start_next_id)
  qed
qed

lemma next_id_step_mono: "next_instance_id s \<le> next_instance_id (step s cw)"
proof (cases cw)
  case (Pair c w)
  show ?thesis
  proof (cases "c = StartNext")
    case True
    from start_next_cases [of s w] show ?thesis unfolding Pair True
      by (auto simp: admitted_def Let_def)
  next
    case False
    then show ?thesis unfolding Pair by (simp add: step_not_start_next_id)
  qed
qed

lemma run_Cons: "run s (cw # cs) = run (step s cw) cs"
  by (simp add: run_def)

lemma next_id_run_mono: "next_instance_id s \<le> next_instance_id (run s cs)"
proof (induction cs arbitrary: s)
  case Nil
  show ?case by (simp add: run_def)
next
  case (Cons cw cs)
  have "next_instance_id s \<le> next_instance_id (step s cw)" by (rule next_id_step_mono)
  also have "\<dots> \<le> next_instance_id (run (step s cw) cs)" by (rule Cons.IH)
  finally show ?case by (simp add: run_Cons)
qed

lemma assigned_ids_upto:
  "wf s \<Longrightarrow> assigned_ids s cs = [next_instance_id s .. next_instance_id (run s cs) - 1]"
proof (induction cs arbitrary: s)
  case Nil
  show ?case by (simp add: run_def)
next
  case (Cons cw cs)
  let ?m = "next_instance_id (step s cw)" and ?k = "next_instance_id (run (step s cw) cs)"
  have 1: "next_instance_id s \<le> ?m" by (rule next_id_step_mono)
  have 2: "?m \<le> ?k" by (rule next_id_run_mono)
  have "assigned_ids s (cw # cs) = [next_instance_id s .. ?m - 1] @ [?m .. ?k - 1]"
    using Cons.prems by (simp add: new_ids_step Cons.IH wf_step)
  also have "\<dots> = [next_instance_id s .. ?k - 1]"
  proof (cases "?m = ?k")
    case True
    then show ?thesis by simp
  next
    case False
    with 2 have "?m \<le> ?k - 1" by simp
    with 1 show ?thesis by (simp add: upto_split1 [of "next_instance_id s" ?m "?k - 1"])
  qed
  finally show ?case by (simp add: run_Cons)
qed

lemma add_all_frame:
  "settings (add_all s urls) = settings s \<and> instances (add_all s urls) = instances s \<and>
   db_instances (add_all s urls) = db_instances s \<and>
   next_instance_id (add_all s urls) = next_instance_id s"
proof (induction urls arbitrary: s)
  case Nil
  show ?case by simp
next
  case (Cons url urls)
  from add_to_queue_cases [of s url] Cons.IH [of "fst (add_to_queue s url)"]
  show ?case by auto
qed

lemma add_all_queue:
  "sorted_wrt (<) (map item_id (queue s)) \<and> db_queue s = queue s \<Longrightarrow>
   sorted_wrt (<) (map item_id (queue (add_all s urls))) \<and>
   db_queue (add_all s urls) = queue (add_all s urls)"
proof (induction urls arbitrary: s)
  case Nil
  then show ?case by simp
next
  case (Cons url urls)
  have "sorted_wrt (<) (map item_id (queue (fst (add_to_queue s url)))) \<and>
        db_queue (fst (add_to_queue s url)) = queue (fst (add_to_queue s url))"
    using add_to_queue_cases [of s url] next_rowid_greater [of _ "map item_id (queue s)"] Cons.prems
    by (auto simp: sorted_wrt_append)
  then show ?case using Cons.IH by simp
qed

lemma max_default0_greater: "x \<in> set ids \<Longrightarrow> x < max_default0 ids + 1"
proof -
  assume x: "x \<in> set ids"
  then have "x \<le> Max (set ids)" by simp
  with x show ?thesis by (auto simp: max_default0_def)
qed

lemma init_next_instance_id:
  "next_instance_id (init st tq ti urls w) = max_default0 (map inst_id ti) + 1"
  by (simp add: init_def Let_def clean_instances_def clean_loop_frame add_all_frame load_instances_def)

lemma wf_init:
  assumes "sorted_wrt (<) (map item_id tq)" and "sorted_wrt (<) (map inst_id ti)"
  shows "wf (init st tq ti urls w)"
proof -
  let ?s0 = "\<lparr>settings = st, queue = load_queue tq, instances = [], next_instance_id = 0,
                db_queue = tq, db_instances = ti\<rparr>"
  let ?s1 = "add_all ?s0 urls"
  let ?s3 = "?s1\<lparr>instances := db_instances ?s1,
                 next_instance_id := max_default0 (map inst_id (db_instances ?s1)) + 1\<rparr>"
  have "sorted (map item_id tq)" using assms(1) by (simp add: strict_sorted_iff)
  then have "load_queue tq = tq" by (simp add: load_queue_def sort_key_id_if_sorted)
  then have q: "sorted_wrt (<) (map item_id (queue ?s1)) \<and> db_queue ?s1 = queue ?s1"
    using assms(1) by (intro add_all_queue) simp
  have i: "db_instances ?s1 = ti" by (simp add: add_all_frame)
  have "wf ?s3"
    using q assms(2) max_default0_greater [of _ "map inst_id ti"]
    by (auto simp: wf_def i)
  then have "wf (clean_loop w (instances ?s3) ?s3)" by (rule wf_clean_loop)
  then show ?thesis
    by (simp add: init_def Let_def clean_instances_def load_instances_def)
qed

lemma init_empty: "init st [] [] [] w = empty_controller st"
  by (simp add: init_def empty_controller_def load_queue_def load_instances_def
      clean_instances_def max_default0_def)

text \<open>When there is room, both candidate ports are available and the launch succeeds,
  \<^verbatim>\<open>start_next\<close> admits the head of the queue.\<close>

lemma start_taby_success:
  assumes "check_port_availability w (rtsp_base_port (settings s) + i * port_increment (settings s)) = Inr True"
    and "check_port_availability w (http_base_port (settings s) + i * port_increment (settings s)) = Inr True"
    and "popen w = Some p" and "i \<notin> inst_id ` set (db_instances s)"
  shows "start_taby s w url i =
          (s\<lparr>db_instances := insort_key inst_id (spawned (settings s) url i p) (db_instances s),
             instances := instances s @ [spawned (settings s) url i p]\<rparr>, True)"
  using assms
  by (simp add: start_taby_def start_taby_try_def spawned_def Let_def db_insert_instance_def)

lemma start_next_success:
  assumes "wf s" and "queue s = item # rest"
    and "int (length (instances s)) < max_concurrent (settings s)"
    and "check_port_availability w (rtsp_base_port (settings s) + next_instance_id s * port_increment (settings s)) = Inr True"
    and "check_port_availability w (http_base_port (settings s) + next_instance_id s * port_increment (settings s)) = Inr True"
    and "popen w = Some p"
  shows "start_next s w = (admitted s item p, True)"
proof -
  have "next_instance_id s \<notin> inst_id ` set (db_instances s)"
    using assms(1) by (auto simp: wf_def)
  from start_taby_success [OF assms(4) assms(5) assms(6) this, of "item_url item"]
  show ?thesis using assms(2) assms(3)
    by (simp add: start_next_def remove_from_queue_def admitted_def Let_def)
qed

lemma queue_admitted:
  assumes "wf s" and "queue s = item # rest"
  shows "queue (admitted s item p) = rest \<and> db_queue (admitted s item p) = rest \<and>
         instances (admitted s item p) = instances s @ [spawned (settings s) (item_url item) (next_instance_id s) p] \<and>
         next_instance_id (admitted s item p) = next_instance_id s + 1"
proof -
  have "sorted_wrt (<) (map item_id (item # rest))" using assms by (simp add: wf_def)
  then have "filter (\<lambda>r. item_id r \<noteq> item_id item) (item # rest) = rest"
    by (rule filter_head_strict)
  then show ?thesis using assms(2) by (simp add: admitted_wf [OF assms(1)])
qed

lemma ports_ok_empty: "ports_ok (empty_controller st)"
  by (simp add: ports_ok_def empty_controller_def)

lemma init_settings: "settings (init st tq ti urls w) = st"
  by (simp add: init_def Let_def clean_instances_def clean_loop_frame add_all_frame)

lemma init_instances: "\<exists>P. instances (init st tq ti urls w) = filter P ti"
  by (simp add: init_def Let_def clean_instances_def clean_loop_instances add_all_frame load_instances_def) blast

lemma ports_ok_init:
  assumes "\<forall>i\<in>set ti. rtsp_port i = rtsp_base_port st + inst_id i * port_increment st \<and>
                       http_port i = http_base_port st + inst_id i * port_increment st"
  shows "ports_ok (init st tq ti urls w)"
proof -
  obtain P where "instances (init st tq ti urls w) = filter P ti" using init_instances by blast
  with assms show ?thesis by (simp add: ports_ok_def init_settings)
qed

section \<open>The claims\<close>

text \<open>Claim C1. Starting from the empty controller, after any number of commands of any
  sequence (enqueue, start-next, stop, and also stop-all, clean and remove) the number of
  instances is at most \<^verbatim>\<open>max_concurrent\<close>. The limit is a count, so it is taken to be
  non-negative; \<open>take k cs\<close> ranges over every point of the sequence \<open>cs\<close>.\<close>

theorem concurrency_bound:
  assumes "0 \<le> max_concurrent st"
  shows "int (length (instances (run (empty_controller st) (take k cs)))) \<le> max_concurrent st"
proof -
  have "int (length (instances (empty_controller st))) \<le> max_concurrent (settings (empty_controller st))"
    using assms by (simp add: empty_controller_def)
  from run_bound [OF this, of "take k cs"] show ?thesis
    by (simp add: run_settings empty_controller_def)
qed

theorem concurrency_bound_witness:
  "0 \<le> max_concurrent single_settings \<and>
   int (length (instances (run (empty_controller single_settings) (take 5 demo_trace))))
     \<le> max_concurrent single_settings"
  using concurrency_bound [of single_settings 5 demo_trace]
  by (simp add: single_settings_def default_settings_def)

text \<open>Claim C2. When the number of instances has reached \<^verbatim>\<open>max_concurrent\<close>,
  \<^verbatim>\<open>start_next\<close> returns \<^verbatim>\<open>False\<close> without raising and the whole controller (queue,
  instances, both tables, \<^verbatim>\<open>next_instance_id\<close>) is unchanged.\<close>

theorem start_next_at_capacity:
  "max_concurrent (settings s) \<le> int (length (instances s)) \<Longrightarrow> start_next s w = (s, False)"
  by (simp add: start_next_def split: list.splits)

theorem start_next_at_capacity_witness:
  "max_concurrent (settings (run (empty_controller single_settings) (take 4 demo_trace))) \<le> int (length (instances (run (empty_controller single_settings) (take 4 demo_trace)))) \<and>
   start_next (run (empty_controller single_settings) (take 4 demo_trace)) (launch_world 101) = ((run (empty_controller single_settings) (take 4 demo_trace)), False)"
proof -
  have h: "max_concurrent (settings (run (empty_controller single_settings) (take 4 demo_trace))) \<le> int (length (instances (run (empty_controller single_settings) (take 4 demo_trace))))"
    by code_simp
  from start_next_at_capacity [OF h, of "launch_world 101"] h show ?thesis by simp
qed

text \<open>Claim C3, amended. An instance started with id \<open>i\<close> gets
  \<^verbatim>\<open>rtsp_port = rtsp_base_port + i * port_increment\<close> and
  \<^verbatim>\<open>http_port = http_base_port + i * port_increment\<close>. Call a controller state
  port-consistent when every instance in it carries the ports this formula gives for its
  id under the current settings. The empty controller is port-consistent, so is a
  controller constructed on a table whose rows carry the formula's ports for the settings
  it is started with (a restart with unchanged port settings), and every command keeps
  port-consistency. In a port-consistent state, and in every state reached from it, two
  instances with distinct ids differ in their RTSP port and in their HTTP port, provided
  \<^verbatim>\<open>port_increment\<close> is not zero.
  Both provisos are needed. With an increment of zero all instances get the same two
  ports: in the first run below the second admission probes port 8554 before the first
  pipeline listens on it, finds it free, and instances 1 and 2 both carry 8554 and 8080.
  After a restart with base ports 8544 and 8070 on a database that holds instance 1 with
  ports 8564 and 8090, instance 2 is given 8564 and 8090 as well, at increment 10.\<close>

theorem port_allocation:
  "(start_taby s w url i = (s', True) \<longrightarrow>
      (\<exists>n. instances s' = instances s @ [n] \<and> inst_id n = i \<and>
           rtsp_port n = rtsp_base_port (settings s) + i * port_increment (settings s) \<and>
           http_port n = http_base_port (settings s) + i * port_increment (settings s))) \<and>
   ports_ok (empty_controller st) \<and>
   ((\<forall>r\<in>set ti. rtsp_port r = rtsp_base_port st + inst_id r * port_increment st \<and>
                  http_port r = http_base_port st + inst_id r * port_increment st)
      \<longrightarrow> ports_ok (init st tq ti urls w0)) \<and>
   (ports_ok s0 \<longrightarrow> ports_ok (run s0 cs)) \<and>
   (ports_ok s0 \<and> port_increment (settings s0) \<noteq> 0 \<longrightarrow>
      (\<forall>a\<in>set (instances (run s0 cs)). \<forall>b\<in>set (instances (run s0 cs)).
         inst_id a \<noteq> inst_id b \<longrightarrow> rtsp_port a \<noteq> rtsp_port b \<and> http_port a \<noteq> http_port b))"
proof (intro conjI impI ballI)
  assume "start_taby s w url i = (s', True)"
  then obtain p where "instances s' = instances s @ [spawned (settings s) url i p]"
    using start_taby_True by blast
  then show "\<exists>n. instances s' = instances s @ [n] \<and> inst_id n = i \<and>
           rtsp_port n = rtsp_base_port (settings s) + i * port_increment (settings s) \<and>
           http_port n = http_base_port (settings s) + i * port_increment (settings s)"
    by (simp add: spawned_def)
next
  show "ports_ok (empty_controller st)" by (rule ports_ok_empty)
next
  assume "\<forall>r\<in>set ti. rtsp_port r = rtsp_base_port st + inst_id r * port_increment st \<and>
                  http_port r = http_base_port st + inst_id r * port_increment st"
  then show "ports_ok (init st tq ti urls w0)" by (rule ports_ok_init)
next
  assume "ports_ok s0"
  then show "ports_ok (run s0 cs)" by (rule ports_ok_run)
next
  fix a b
  assume h: "ports_ok s0 \<and> port_increment (settings s0) \<noteq> 0"
    and a: "a \<in> set (instances (run s0 cs))"
    and b: "b \<in> set (instances (run s0 cs))"
    and ne: "inst_id a \<noteq> inst_id b"
  let ?st = "settings s0"
  from h have "ports_ok (run s0 cs)" by (simp add: ports_ok_run)
  moreover have "settings (run s0 cs) = ?st" by (simp add: run_settings)
  ultimately have pa: "rtsp_port a = rtsp_base_port ?st + inst_id a * port_increment ?st"
    "http_port a = http_base_port ?st + inst_id a * port_increment ?st"
    and pb: "rtsp_port b = rtsp_base_port ?st + inst_id b * port_increment ?st"
    "http_port b = http_base_port ?st + inst_id b * port_increment ?st"
    using a b by (simp_all add: ports_ok_def)
  from h ne have "inst_id a * port_increment ?st \<noteq> inst_id b * port_increment ?st" by simp
  then show "rtsp_port a \<noteq> rtsp_port b" and "http_port a \<noteq> http_port b"
    unfolding pa pb by simp_all
qed

theorem port_allocation_witness:
  "start_taby (empty_controller default_settings) (launch_world 100) ''http://a'' 1
     = (fst (start_taby (empty_controller default_settings) (launch_world 100) ''http://a'' 1), True) \<and>
   (\<exists>n. instances (fst (start_taby (empty_controller default_settings) (launch_world 100) ''http://a'' 1))
          = instances (empty_controller default_settings) @ [n] \<and> inst_id n = 1 \<and>
        rtsp_port n = rtsp_base_port (settings (empty_controller default_settings)) + 1 * port_increment (settings (empty_controller default_settings)) \<and>
        http_port n = http_base_port (settings (empty_controller default_settings)) + 1 * port_increment (settings (empty_controller default_settings))) \<and>
   ports_ok (init default_settings (db_queue (run (empty_controller default_settings) (take 4 demo_trace))) (db_instances (run (empty_controller default_settings) (take 4 demo_trace))) [] (launch_world 0)) \<and> port_increment (settings (init default_settings (db_queue (run (empty_controller default_settings) (take 4 demo_trace))) (db_instances (run (empty_controller default_settings) (take 4 demo_trace))) [] (launch_world 0))) \<noteq> 0 \<and>
   ports_ok (run (init default_settings (db_queue (run (empty_controller default_settings) (take 4 demo_trace))) (db_instances (run (empty_controller default_settings) (take 4 demo_trace))) [] (launch_world 0)) [(StartNext, launch_world 101)]) \<and>
   map inst_id (instances (run (init default_settings (db_queue (run (empty_controller default_settings) (take 4 demo_trace))) (db_instances (run (empty_controller default_settings) (take 4 demo_trace))) [] (launch_world 0)) [(StartNext, launch_world 101)])) = [1, 2] \<and>
   rtsp_port (instances (run (init default_settings (db_queue (run (empty_controller default_settings) (take 4 demo_trace))) (db_instances (run (empty_controller default_settings) (take 4 demo_trace))) [] (launch_world 0)) [(StartNext, launch_world 101)]) ! 0)
     \<noteq> rtsp_port (instances (run (init default_settings (db_queue (run (empty_controller default_settings) (take 4 demo_trace))) (db_instances (run (empty_controller default_settings) (take 4 demo_trace))) [] (launch_world 0)) [(StartNext, launch_world 101)]) ! 1) \<and>
   http_port (instances (run (init default_settings (db_queue (run (empty_controller default_settings) (take 4 demo_trace))) (db_instances (run (empty_controller default_settings) (take 4 demo_trace))) [] (launch_world 0)) [(StartNext, launch_world 101)]) ! 0)
     \<noteq> http_port (instances (run (init default_settings (db_queue (run (empty_controller default_settings) (take 4 demo_trace))) (db_instances (run (empty_controller default_settings) (take 4 demo_trace))) [] (launch_world 0)) [(StartNext, launch_world 101)]) ! 1)"
proof -
  have 1: "start_taby (empty_controller default_settings) (launch_world 100) ''http://a'' 1
     = (fst (start_taby (empty_controller default_settings) (launch_world 100) ''http://a'' 1), True)"
    by code_simp
  have rows: "\<forall>r\<in>set (db_instances (run (empty_controller default_settings) (take 4 demo_trace))).
      rtsp_port r = rtsp_base_port default_settings + inst_id r * port_increment default_settings \<and>
      http_port r = http_base_port default_settings + inst_id r * port_increment default_settings"
    by code_simp
  have 2: "port_increment (settings (init default_settings (db_queue (run (empty_controller default_settings) (take 4 demo_trace))) (db_instances (run (empty_controller default_settings) (take 4 demo_trace))) [] (launch_world 0))) \<noteq> 0"
    by (simp add: init_settings default_settings_def)
  have ids: "map inst_id (instances (run (init default_settings (db_queue (run (empty_controller default_settings) (take 4 demo_trace))) (db_instances (run (empty_controller default_settings) (take 4 demo_trace))) [] (launch_world 0)) [(StartNext, launch_world 101)])) = [1, 2]"
    by code_simp
  have a: "instances (run (init default_settings (db_queue (run (empty_controller default_settings) (take 4 demo_trace))) (db_instances (run (empty_controller default_settings) (take 4 demo_trace))) [] (launch_world 0)) [(StartNext, launch_world 101)]) ! 0
             \<in> set (instances (run (init default_settings (db_queue (run (empty_controller default_settings) (take 4 demo_trace))) (db_instances (run (empty_controller default_settings) (take 4 demo_trace))) [] (launch_world 0)) [(StartNext, launch_world 101)]))"
    and b: "instances (run (init default_settings (db_queue (run (empty_controller default_settings) (take 4 demo_trace))) (db_instances (run (empty_controller default_settings) (take 4 demo_trace))) [] (launch_world 0)) [(StartNext, launch_world 101)]) ! 1
             \<in> set (instances (run (init default_settings (db_queue (run (empty_controller default_settings) (take 4 demo_trace))) (db_instances (run (empty_controller default_settings) (take 4 demo_trace))) [] (launch_world 0)) [(StartNext, launch_world 101)]))"
    and ne: "inst_id (instances (run (init default_settings (db_queue (run (empty_controller default_settings) (take 4 demo_trace))) (db_instances (run (empty_controller default_settings) (take 4 demo_trace))) [] (launch_world 0)) [(StartNext, launch_world 101)]) ! 0)
             \<noteq> inst_id (instances (run (init default_settings (db_queue (run (empty_controller default_settings) (take 4 demo_trace))) (db_instances (run (empty_controller default_settings) (take 4 demo_trace))) [] (launch_world 0)) [(StartNext, launch_world 101)]) ! 1)"
    by code_simp+
  note T = port_allocation [of "(empty_controller default_settings)" "launch_world 100" "''http://a''" 1
      "fst (start_taby (empty_controller default_settings) (launch_world 100) ''http://a'' 1)" default_settings
      "db_instances (run (empty_controller default_settings) (take 4 demo_trace))" "db_queue (run (empty_controller default_settings) (take 4 demo_trace))" "[]" "launch_world 0" "(init default_settings (db_queue (run (empty_controller default_settings) (take 4 demo_trace))) (db_instances (run (empty_controller default_settings) (take 4 demo_trace))) [] (launch_world 0))" "[(StartNext, launch_world 101)]"]
  from T 1 have ex: "\<exists>n. instances (fst (start_taby (empty_controller default_settings) (launch_world 100) ''http://a'' 1))
          = instances (empty_controller default_settings) @ [n] \<and> inst_id n = 1 \<and>
        rtsp_port n = rtsp_base_port (settings (empty_controller default_settings)) + 1 * port_increment (settings (empty_controller default_settings)) \<and>
        http_port n = http_base_port (settings (empty_controller default_settings)) + 1 * port_increment (settings (empty_controller default_settings))"
    by blast
  from T rows have ok: "ports_ok (init default_settings (db_queue (run (empty_controller default_settings) (take 4 demo_trace))) (db_instances (run (empty_controller default_settings) (take 4 demo_trace))) [] (launch_world 0))" by blast
  from T ok have ok': "ports_ok (run (init default_settings (db_queue (run (empty_controller default_settings) (take 4 demo_trace))) (db_instances (run (empty_controller default_settings) (take 4 demo_trace))) [] (launch_world 0)) [(StartNext, launch_world 101)])" by blast
  from T ok 2 a b ne
  have d: "rtsp_port (instances (run (init default_settings (db_queue (run (empty_controller default_settings) (take 4 demo_trace))) (db_instances (run (empty_controller default_settings) (take 4 demo_trace))) [] (launch_world 0)) [(StartNext, launch_world 101)]) ! 0)
     \<noteq> rtsp_port (instances (run (init default_settings (db_queue (run (empty_controller default_settings) (take 4 demo_trace))) (db_instances (run (empty_controller default_settings) (take 4 demo_trace))) [] (launch_world 0)) [(StartNext, launch_world 101)]) ! 1) \<and>
   http_port (instances (run (init default_settings (db_queue (run (empty_controller default_settings) (take 4 demo_trace))) (db_instances (run (empty_controller default_settings) (take 4 demo_trace))) [] (launch_world 0)) [(StartNext, launch_world 101)]) ! 0)
     \<noteq> http_port (instances (run (init default_settings (db_queue (run (empty_controller default_settings) (take 4 demo_trace))) (db_instances (run (empty_controller default_settings) (take 4 demo_trace))) [] (launch_world 0)) [(StartNext, launch_world 101)]) ! 1)"
    by blast
  from 1 ex ok 2 ok' ids d show ?thesis by blast
qed

theorem port_allocation_counterexample:
  "map inst_id (instances (run (empty_controller flat_settings) (take 5 demo_trace))) = [1, 2] \<and>
   map rtsp_port (instances (run (empty_controller flat_settings) (take 5 demo_trace))) = [8554, 8554] \<and>
   map http_port (instances (run (empty_controller flat_settings) (take 5 demo_trace))) = [8080, 8080] \<and>
   port_increment (settings (init moved_settings (db_queue (run (empty_controller default_settings) (take 4 demo_trace))) (db_instances (run (empty_controller default_settings) (take 4 demo_trace))) [] (launch_world 0))) = 10 \<and>
   map inst_id (instances (run (init moved_settings (db_queue (run (empty_controller default_settings) (take 4 demo_trace))) (db_instances (run (empty_controller default_settings) (take 4 demo_trace))) [] (launch_world 0)) [(StartNext, launch_world 101)])) = [1, 2] \<and>
   map rtsp_port (instances (run (init moved_settings (db_queue (run (empty_controller default_settings) (take 4 demo_trace))) (db_instances (run (empty_controller default_settings) (take 4 demo_trace))) [] (launch_world 0)) [(StartNext, launch_world 101)])) = [8564, 8564] \<and>
   map http_port (instances (run (init moved_settings (db_queue (run (empty_controller default_settings) (take 4 demo_trace))) (db_instances (run (empty_controller default_settings) (take 4 demo_trace))) [] (launch_world 0)) [(StartNext, launch_world 101)])) = [8090, 8090]"
  by code_simp

text \<open>Claim C4, amended. At construction \<^verbatim>\<open>next_instance_id\<close> is one more than the largest
  id among the loaded instances (1 when there is none). From then on each admission takes
  the current value of the counter and increments it: the ids handed out along any run
  from a state satisfying the invariant are the consecutive numbers from the counter's
  value at the start up to its value at the end, so they strictly increase, none is handed
  out twice, and each is larger than every id present at the start, whichever instances
  were stopped or reclaimed in between. The id is therefore not always one more than the
  largest id currently present: after instance 2 is stopped, the run below hands out 3
  while only instance 1 exists.\<close>

theorem instance_ids_counter:
  "next_instance_id (init st tq ti urls w) = max_default0 (map inst_id ti) + 1 \<and>
   (wf s \<longrightarrow>
      assigned_ids s cs = [next_instance_id s .. next_instance_id (run s cs) - 1] \<and>
      sorted_wrt (<) (assigned_ids s cs) \<and>
      (\<forall>a\<in>set (assigned_ids s cs). \<forall>i\<in>set (instances s). inst_id i < a))"
proof (intro conjI impI ballI)
  show "next_instance_id (init st tq ti urls w) = max_default0 (map inst_id ti) + 1"
    by (rule init_next_instance_id)
next
  assume "wf s"
  then show "assigned_ids s cs = [next_instance_id s .. next_instance_id (run s cs) - 1]"
    by (rule assigned_ids_upto)
  then show "sorted_wrt (<) (assigned_ids s cs)"
    by (simp add: sorted_wrt_upto)
next
  fix a i
  assume wf: "wf s" and a: "a \<in> set (assigned_ids s cs)" and i: "i \<in> set (instances s)"
  from wf a have "next_instance_id s \<le> a" by (simp add: assigned_ids_upto)
  moreover from wf i have "inst_id i < next_instance_id s" by (simp add: wf_def)
  ultimately show "inst_id i < a" by simp
qed

theorem instance_ids_counter_witness:
  "wf (run (empty_controller default_settings) (take 5 demo_trace)) \<and>
   assigned_ids (run (empty_controller default_settings) (take 5 demo_trace)) [(Stop 2, launch_world 0), (StartNext, launch_world 102)] = [3] \<and>
   assigned_ids (run (empty_controller default_settings) (take 5 demo_trace)) [(Stop 2, launch_world 0), (StartNext, launch_world 102)]
     = [next_instance_id (run (empty_controller default_settings) (take 5 demo_trace)) ..
        next_instance_id (run (run (empty_controller default_settings) (take 5 demo_trace)) [(Stop 2, launch_world 0), (StartNext, launch_world 102)]) - 1] \<and>
   sorted_wrt (<) (assigned_ids (run (empty_controller default_settings) (take 5 demo_trace)) [(Stop 2, launch_world 0), (StartNext, launch_world 102)]) \<and>
   inst_id (instances (run (empty_controller default_settings) (take 5 demo_trace)) ! 1) < 3"
proof -
  have w: "wf (run (empty_controller default_settings) (take 5 demo_trace))" by (simp add: wf_run wf_empty)
  have v: "assigned_ids (run (empty_controller default_settings) (take 5 demo_trace)) [(Stop 2, launch_world 0), (StartNext, launch_world 102)] = [3]"
    by code_simp
  have i: "instances (run (empty_controller default_settings) (take 5 demo_trace)) ! 1 \<in> set (instances (run (empty_controller default_settings) (take 5 demo_trace)))" by code_simp
  note T = instance_ids_counter [of default_settings "[]" "[]" "[]" "launch_world 0" "(run (empty_controller default_settings) (take 5 demo_trace))"
      "[(Stop 2, launch_world 0), (StartNext, launch_world 102)]"]
  from T w
  have c: "assigned_ids (run (empty_controller default_settings) (take 5 demo_trace)) [(Stop 2, launch_world 0), (StartNext, launch_world 102)]
     = [next_instance_id (run (empty_controller default_settings) (take 5 demo_trace)) ..
        next_instance_id (run (run (empty_controller default_settings) (take 5 demo_trace)) [(Stop 2, launch_world 0), (StartNext, launch_world 102)]) - 1]"
    and s: "sorted_wrt (<) (assigned_ids (run (empty_controller default_settings) (take 5 demo_trace)) [(Stop 2, launch_world 0), (StartNext, launch_world 102)])"
    and q: "\<forall>a\<in>set (assigned_ids (run (empty_controller default_settings) (take 5 demo_trace)) [(Stop 2, launch_world 0), (StartNext, launch_world 102)]).
           \<forall>i\<in>set (instances (run (empty_controller default_settings) (take 5 demo_trace))). inst_id i < a"
    by blast+
  have m: "3 \<in> set (assigned_ids (run (empty_controller default_settings) (take 5 demo_trace)) [(Stop 2, launch_world 0), (StartNext, launch_world 102)])"
    unfolding v by simp
  from q m i have "inst_id (instances (run (empty_controller default_settings) (take 5 demo_trace)) ! 1) < 3" by blast
  with w v c s show ?thesis by blast
qed

theorem instance_ids_counterexample:
  "map inst_id (instances (run (empty_controller default_settings) demo_trace)) = [1] \<and>
   new_ids (run (empty_controller default_settings) demo_trace)
     (step (run (empty_controller default_settings) demo_trace) (StartNext, launch_world 102)) = [3] \<and>
   max_default0 (map inst_id (instances (run (empty_controller default_settings) demo_trace))) + 1 = 2"
  by code_simp

text \<open>Claim C5. When the queue is not empty and \<^verbatim>\<open>start_next\<close> returns \<^verbatim>\<open>False\<close>, the
  controller is unchanged: the same item is still at the head of the queue and
  \<^verbatim>\<open>next_instance_id\<close> has not advanced. An occupied RTSP or HTTP candidate port
  (\<^verbatim>\<open>connect_ex\<close> returns 0) is one way to fail.\<close>

theorem failed_admission_keeps_head:
  assumes "queue s = item # rest"
  shows "(\<not> snd (start_next s w) \<longrightarrow>
            queue (fst (start_next s w)) = item # rest \<and>
            next_instance_id (fst (start_next s w)) = next_instance_id s \<and>
            fst (start_next s w) = s) \<and>
         (connect_ex w (rtsp_base_port (settings s) + next_instance_id s * port_increment (settings s)) = Some 0 \<or>
          connect_ex w (http_base_port (settings s) + next_instance_id s * port_increment (settings s)) = Some 0
          \<longrightarrow> \<not> snd (start_next s w))"
proof (intro conjI impI)
  assume f: "\<not> snd (start_next s w)"
  then show "fst (start_next s w) = s" by (rule start_next_False)
  with assms show "queue (fst (start_next s w)) = item # rest" by simp
  from f show "next_instance_id (fst (start_next s w)) = next_instance_id s"
    by (simp add: start_next_False)
next
  assume "connect_ex w (rtsp_base_port (settings s) + next_instance_id s * port_increment (settings s)) = Some 0 \<or>
          connect_ex w (http_base_port (settings s) + next_instance_id s * port_increment (settings s)) = Some 0"
  then have "start_taby s w (item_url item) (next_instance_id s) = (s, False)"
    by (rule port_conflict_start_taby)
  with assms show "\<not> snd (start_next s w)" by (simp add: start_next_def)
qed

theorem failed_admission_keeps_head_witness:
  "queue (run (empty_controller default_settings) (take 3 demo_trace)) = \<lparr>item_id = 1, item_url = ''http://a''\<rparr>
      # [\<lparr>item_id = 2, item_url = ''https://b''\<rparr>, \<lparr>item_id = 3, item_url = ''http://c''\<rparr>] \<and>
   connect_ex busy_world
     (rtsp_base_port (settings (run (empty_controller default_settings) (take 3 demo_trace))) + next_instance_id (run (empty_controller default_settings) (take 3 demo_trace)) * port_increment (settings (run (empty_controller default_settings) (take 3 demo_trace)))) = Some 0 \<and>
   \<not> snd (start_next (run (empty_controller default_settings) (take 3 demo_trace)) busy_world) \<and>
   queue (fst (start_next (run (empty_controller default_settings) (take 3 demo_trace)) busy_world)) = \<lparr>item_id = 1, item_url = ''http://a''\<rparr>
      # [\<lparr>item_id = 2, item_url = ''https://b''\<rparr>, \<lparr>item_id = 3, item_url = ''http://c''\<rparr>] \<and>
   next_instance_id (fst (start_next (run (empty_controller default_settings) (take 3 demo_trace)) busy_world)) = next_instance_id (run (empty_controller default_settings) (take 3 demo_trace))"
proof -
  have q: "queue (run (empty_controller default_settings) (take 3 demo_trace)) = \<lparr>item_id = 1, item_url = ''http://a''\<rparr>
      # [\<lparr>item_id = 2, item_url = ''https://b''\<rparr>, \<lparr>item_id = 3, item_url = ''http://c''\<rparr>]"
    by code_simp
  have c: "connect_ex busy_world
     (rtsp_base_port (settings (run (empty_controller default_settings) (take 3 demo_trace))) + next_instance_id (run (empty_controller default_settings) (take 3 demo_trace)) * port_increment (settings (run (empty_controller default_settings) (take 3 demo_trace)))) = Some 0"
    by (simp add: busy_world_def)
  from failed_admission_keeps_head [OF q, of busy_world] c q show ?thesis by blast
qed

text \<open>Claim C6. When \<^verbatim>\<open>stop_instance\<close> returns \<^verbatim>\<open>True\<close> for an id, that id belonged to an
  instance, afterwards no instance in memory and no row of table \<^verbatim>\<open>instances\<close> has it,
  and a further \<^verbatim>\<open>stop_instance\<close> for the same id finds nothing: it returns
  \<^verbatim>\<open>False\<close> and changes nothing, whatever the operating system would answer.\<close>

theorem stop_removes_instance:
  assumes "snd (stop_instance s w i)"
  shows "i \<in> inst_id ` set (instances s) \<and>
         i \<notin> inst_id ` set (instances (fst (stop_instance s w i))) \<and>
         i \<notin> inst_id ` set (db_instances (fst (stop_instance s w i))) \<and>
         stop_instance (fst (stop_instance s w i)) w' i = (fst (stop_instance s w i), False)"
proof -
  from stop_instance_cases [of s w i] assms
  have i: "i \<in> inst_id ` set (instances s)"
    and eq: "stop_instance s w i =
     (s\<lparr>db_instances := filter (\<lambda>r. inst_id r \<noteq> i) (db_instances s),
        instances := filter (\<lambda>r. inst_id r \<noteq> i) (instances s)\<rparr>, True)"
    by auto
  have "find (\<lambda>r. inst_id r = i) (filter (\<lambda>r. inst_id r \<noteq> i) (instances s)) = None"
    by (simp add: find_None_iff)
  then have "stop_instance (fst (stop_instance s w i)) w' i = (fst (stop_instance s w i), False)"
    unfolding eq by (simp add: stop_instance_def)
  with i show ?thesis unfolding eq by auto
qed

theorem stop_removes_instance_witness:
  "snd (stop_instance (run (empty_controller default_settings) (take 5 demo_trace)) (launch_world 0) 2) \<and>
   2 \<in> inst_id ` set (instances (run (empty_controller default_settings) (take 5 demo_trace))) \<and>
   2 \<notin> inst_id ` set (instances (fst (stop_instance (run (empty_controller default_settings) (take 5 demo_trace)) (launch_world 0) 2))) \<and>
   2 \<notin> inst_id ` set (db_instances (fst (stop_instance (run (empty_controller default_settings) (take 5 demo_trace)) (launch_world 0) 2))) \<and>
   stop_instance (fst (stop_instance (run (empty_controller default_settings) (take 5 demo_trace)) (launch_world 0) 2)) busy_world 2
     = (fst (stop_instance (run (empty_controller default_settings) (take 5 demo_trace)) (launch_world 0) 2), False)"
proof -
  have h: "snd (stop_instance (run (empty_controller default_settings) (take 5 demo_trace)) (launch_world 0) 2)" by code_simp
  from stop_removes_instance [OF h, of busy_world] h show ?thesis by blast
qed

text \<open>Claim C7. In a state satisfying the invariant \<open>wf\<close>, which every state of a
  controller satisfies, one pass of \<^verbatim>\<open>clean_instances\<close>
  keeps, in memory and in table \<^verbatim>\<open>instances\<close>, exactly the instances whose process
  answers signal 0 with anything but \<^verbatim>\<open>ProcessLookupError\<close>, each unchanged and in
  the same order, and removes all others; the queue and the counter are untouched.\<close>

theorem clean_exact:
  assumes "wf s"
  shows "instances (clean_instances s w) = filter (is_alive w) (instances s) \<and>
         db_instances (clean_instances s w) = filter (is_alive w) (db_instances s) \<and>
         queue (clean_instances s w) = queue s \<and> db_queue (clean_instances s w) = db_queue s \<and>
         next_instance_id (clean_instances s w) = next_instance_id s"
proof -
  have d: "distinct (map inst_id (instances s))" using assms by (rule wf_distinct)
  have db: "db_instances s = instances s" using assms by (simp add: wf_def)
  have "filter (\<lambda>j. inst_id j \<notin> inst_id ` {i \<in> set (instances s). \<not> is_alive w i}) (instances s)
        = filter (is_alive w) (instances s)"
    by (rule filter_cong) (simp_all add: dead_ids_distinct [OF d])
  then show ?thesis
    by (simp add: clean_instances_def clean_loop_instances clean_loop_db_instances clean_loop_frame db)
qed

theorem clean_exact_witness:
  "wf (run (empty_controller default_settings) (take 5 demo_trace)) \<and>
   instances (clean_instances (run (empty_controller default_settings) (take 5 demo_trace)) reaper_world) = filter (is_alive reaper_world) (instances (run (empty_controller default_settings) (take 5 demo_trace))) \<and>
   db_instances (clean_instances (run (empty_controller default_settings) (take 5 demo_trace)) reaper_world) = filter (is_alive reaper_world) (db_instances (run (empty_controller default_settings) (take 5 demo_trace))) \<and>
   map inst_id (filter (is_alive reaper_world) (instances (run (empty_controller default_settings) (take 5 demo_trace)))) = [2]"
proof -
  have w: "wf (run (empty_controller default_settings) (take 5 demo_trace))" by (simp add: wf_run wf_empty)
  have v: "map inst_id (filter (is_alive reaper_world) (instances (run (empty_controller default_settings) (take 5 demo_trace)))) = [2]" by code_simp
  from clean_exact [OF w, of reaper_world] w v show ?thesis by blast
qed

text \<open>Claim C8. In a state satisfying the invariant \<open>wf\<close> the queue is handled first in,
  first out. When the queue is not empty, there is room, both candidate ports are
  available and the launch succeeds, \<^verbatim>\<open>start_next\<close> returns \<^verbatim>\<open>True\<close>, the queue and
  its table lose exactly the head, and the new instance is the one built from the head's
  URL, the current counter and the new pid. Below capacity \<^verbatim>\<open>start_next\<close> succeeds
  exactly when \<^verbatim>\<open>start_taby\<close> on the head's URL does, and whenever it does not succeed
  nothing changes, so no other item is ever admitted.
  \<^verbatim>\<open>add_to_queue\<close> appends an accepted URL at the tail with a rowid above every pending
  one, so that reloading the table (\<^verbatim>\<open>ORDER BY id\<close>) gives the new queue in the same
  order, and leaves the queue alone otherwise; \<^verbatim>\<open>remove_from_queue\<close> deletes the items
  with the given id and keeps the order of the others; stopping and cleaning do not touch
  the queue.\<close>

theorem fifo_admission:
  assumes "wf s"
  shows "(\<forall>item rest p. queue s = item # rest \<and>
            int (length (instances s)) < max_concurrent (settings s) \<and>
            check_port_availability w
              (rtsp_base_port (settings s) + next_instance_id s * port_increment (settings s)) = Inr True \<and>
            check_port_availability w
              (http_base_port (settings s) + next_instance_id s * port_increment (settings s)) = Inr True \<and>
            popen w = Some p \<longrightarrow>
            snd (start_next s w) \<and> queue (fst (start_next s w)) = rest \<and>
            db_queue (fst (start_next s w)) = rest \<and>
            instances (fst (start_next s w))
              = instances s @ [spawned (settings s) (item_url item) (next_instance_id s) p]) \<and>
         (\<forall>item rest. queue s = item # rest \<longrightarrow>
            snd (start_next s w) = snd (start_taby s w (item_url item) (next_instance_id s)) \<or>
            max_concurrent (settings s) \<le> int (length (instances s))) \<and>
         (\<forall>item rest. queue s = item # rest \<longrightarrow>
            start_next s w = (s, False) \<or>
            (\<exists>n. snd (start_next s w) \<and> queue (fst (start_next s w)) = rest \<and>
                 instances (fst (start_next s w)) = instances s @ [n] \<and>
                 inst_url n = item_url item)) \<and>
         (valid_url url \<longrightarrow>
            (\<exists>q. queue (fst (add_to_queue s url)) = queue s @ [q] \<and> item_url q = url \<and>
                 (\<forall>r\<in>set (queue s). item_id r < item_id q)) \<and>
            load_queue (db_queue (fst (add_to_queue s url))) = queue (fst (add_to_queue s url))) \<and>
         (\<not> valid_url url \<longrightarrow> queue (fst (add_to_queue s url)) = queue s) \<and>
         queue (remove_from_queue s i) = filter (\<lambda>q. item_id q \<noteq> i) (queue s) \<and>
         queue (fst (stop_instance s w i)) = queue s \<and>
         queue (stop_all s w) = queue s \<and>
         queue (clean_instances s w) = queue s"
proof (intro conjI allI impI)
  fix item rest p
  assume h: "queue s = item # rest \<and>
            int (length (instances s)) < max_concurrent (settings s) \<and>
            check_port_availability w
              (rtsp_base_port (settings s) + next_instance_id s * port_increment (settings s)) = Inr True \<and>
            check_port_availability w
              (http_base_port (settings s) + next_instance_id s * port_increment (settings s)) = Inr True \<and>
            popen w = Some p"
  then have eq: "start_next s w = (admitted s item p, True)"
    using assms by (intro start_next_success) simp_all
  from h have q: "queue s = item # rest" by simp
  note A = queue_admitted [OF assms q, of p]
  show "snd (start_next s w)" by (simp add: eq)
  show "queue (fst (start_next s w)) = rest" using A by (simp add: eq)
  show "db_queue (fst (start_next s w)) = rest" using A by (simp add: eq)
  show "instances (fst (start_next s w))
              = instances s @ [spawned (settings s) (item_url item) (next_instance_id s) p]"
    using A by (simp add: eq)
next
  fix item rest
  assume q: "queue s = item # rest"
  show "snd (start_next s w) = snd (start_taby s w (item_url item) (next_instance_id s)) \<or>
            max_concurrent (settings s) \<le> int (length (instances s))"
    using q by (simp add: start_next_def split: prod.splits bool.splits)
next
  fix item rest
  assume q: "queue s = item # rest"
  from start_next_cases [of s w]
  show "start_next s w = (s, False) \<or>
            (\<exists>n. snd (start_next s w) \<and> queue (fst (start_next s w)) = rest \<and>
                 instances (fst (start_next s w)) = instances s @ [n] \<and>
                 inst_url n = item_url item)"
  proof (elim disjE exE conjE)
    assume "start_next s w = (s, False)"
    then show ?thesis by simp
  next
    fix item' rest' p
    assume q': "queue s = item' # rest'" and eq: "start_next s w = (admitted s item' p, True)"
    from q q' have [simp]: "item' = item" "rest' = rest" by simp_all
    note A = queue_admitted [OF assms q, of p]
    moreover have "inst_url (spawned (settings s) (item_url item) (next_instance_id s) p) = item_url item"
      by (simp add: spawned_def)
    ultimately show ?thesis using eq by simp
  qed
next
  assume v: "valid_url url"
  let ?q = "\<lparr>item_id = next_rowid (map item_id (db_queue s)), item_url = url\<rparr>"
  from v add_to_queue_cases [of s url]
  have eq: "queue (fst (add_to_queue s url)) = queue s @ [?q]" by auto
  have db: "db_queue s = queue s" using assms by (simp add: wf_def)
  have gt: "\<forall>r\<in>set (queue s). item_id r < item_id ?q"
    using next_rowid_greater [of _ "map item_id (queue s)"] by (simp add: db)
  from eq gt show "\<exists>q. queue (fst (add_to_queue s url)) = queue s @ [q] \<and> item_url q = url \<and>
                 (\<forall>r\<in>set (queue s). item_id r < item_id q)"
    by (intro exI [of _ ?q]) simp
  have w': "wf (fst (add_to_queue s url))" using assms by (rule wf_add_to_queue)
  then have "sorted (map item_id (queue (fst (add_to_queue s url))))"
    by (simp add: wf_def strict_sorted_iff)
  then show "load_queue (db_queue (fst (add_to_queue s url))) = queue (fst (add_to_queue s url))"
    using w' by (simp add: wf_def load_queue_def sort_key_id_if_sorted)
next
  assume "\<not> valid_url url"
  then show "queue (fst (add_to_queue s url)) = queue s"
    using add_to_queue_cases [of s url] by auto
next
  show "queue (remove_from_queue s i) = filter (\<lambda>q. item_id q \<noteq> i) (queue s)"
    by (simp add: remove_from_queue_def)
next
  show "queue (fst (stop_instance s w i)) = queue s"
    using stop_instance_cases [of s w i] by auto
next
  show "queue (stop_all s w) = queue s" by (simp add: stop_all_def stop_all_loop_frame)
next
  show "queue (clean_instances s w) = queue s" by (simp add: clean_instances_def clean_loop_frame)
qed

theorem fifo_admission_witness:
  "wf (run (empty_controller default_settings) (take 3 demo_trace)) \<and>
   queue (run (empty_controller default_settings) (take 3 demo_trace)) = \<lparr>item_id = 1, item_url = ''http://a''\<rparr>
      # [\<lparr>item_id = 2, item_url = ''https://b''\<rparr>, \<lparr>item_id = 3, item_url = ''http://c''\<rparr>] \<and>
   int (length (instances (run (empty_controller default_settings) (take 3 demo_trace)))) < max_concurrent (settings (run (empty_controller default_settings) (take 3 demo_trace))) \<and>
   check_port_availability (launch_world 100)
     (rtsp_base_port (settings (run (empty_controller default_settings) (take 3 demo_trace))) + next_instance_id (run (empty_controller default_settings) (take 3 demo_trace)) * port_increment (settings (run (empty_controller default_settings) (take 3 demo_trace)))) = Inr True \<and>
   check_port_availability (launch_world 100)
     (http_base_port (settings (run (empty_controller default_settings) (take 3 demo_trace))) + next_instance_id (run (empty_controller default_settings) (take 3 demo_trace)) * port_increment (settings (run (empty_controller default_settings) (take 3 demo_trace)))) = Inr True \<and>
   popen (launch_world 100) = Some 100 \<and>
   snd (start_next (run (empty_controller default_settings) (take 3 demo_trace)) (launch_world 100)) \<and>
   queue (fst (start_next (run (empty_controller default_settings) (take 3 demo_trace)) (launch_world 100)))
     = [\<lparr>item_id = 2, item_url = ''https://b''\<rparr>, \<lparr>item_id = 3, item_url = ''http://c''\<rparr>] \<and>
   db_queue (fst (start_next (run (empty_controller default_settings) (take 3 demo_trace)) (launch_world 100)))
     = [\<lparr>item_id = 2, item_url = ''https://b''\<rparr>, \<lparr>item_id = 3, item_url = ''http://c''\<rparr>] \<and>
   instances (fst (start_next (run (empty_controller default_settings) (take 3 demo_trace)) (launch_world 100)))
     = instances (run (empty_controller default_settings) (take 3 demo_trace)) @ [spawned (settings (run (empty_controller default_settings) (take 3 demo_trace)))
          (item_url \<lparr>item_id = 1, item_url = ''http://a''\<rparr>) (next_instance_id (run (empty_controller default_settings) (take 3 demo_trace))) 100] \<and>
   valid_url ''http://d'' \<and>
   load_queue (db_queue (fst (add_to_queue (run (empty_controller default_settings) (take 3 demo_trace)) ''http://d''))) = queue (fst (add_to_queue (run (empty_controller default_settings) (take 3 demo_trace)) ''http://d''))"
proof -
  have w: "wf (run (empty_controller default_settings) (take 3 demo_trace))" by (simp add: wf_run wf_empty)
  have q: "queue (run (empty_controller default_settings) (take 3 demo_trace)) = \<lparr>item_id = 1, item_url = ''http://a''\<rparr>
      # [\<lparr>item_id = 2, item_url = ''https://b''\<rparr>, \<lparr>item_id = 3, item_url = ''http://c''\<rparr>]"
    by code_simp
  have r: "int (length (instances (run (empty_controller default_settings) (take 3 demo_trace)))) < max_concurrent (settings (run (empty_controller default_settings) (take 3 demo_trace)))" by code_simp
  have c1: "check_port_availability (launch_world 100)
     (rtsp_base_port (settings (run (empty_controller default_settings) (take 3 demo_trace))) + next_instance_id (run (empty_controller default_settings) (take 3 demo_trace)) * port_increment (settings (run (empty_controller default_settings) (take 3 demo_trace)))) = Inr True"
    by code_simp
  have c2: "check_port_availability (launch_world 100)
     (http_base_port (settings (run (empty_controller default_settings) (take 3 demo_trace))) + next_instance_id (run (empty_controller default_settings) (take 3 demo_trace)) * port_increment (settings (run (empty_controller default_settings) (take 3 demo_trace)))) = Inr True"
    by code_simp
  have p: "popen (launch_world 100) = Some 100" by (simp add: launch_world_def)
  have v: "valid_url ''http://d''" by (simp add: valid_url_def)
  from fifo_admission [OF w, of "launch_world 100" "''http://d''" 2] w q r c1 c2 p v
  show ?thesis by blast
qed

text \<open>Claim C9. \<^verbatim>\<open>add_to_queue\<close> changes neither the instance list, nor table
  \<^verbatim>\<open>instances\<close>, nor \<^verbatim>\<open>next_instance_id\<close>, nor the settings; it takes no answer from the
  operating system, so it launches nothing. More generally a command other than
  start-next adds no instance and leaves the counter alone: admission happens in
  \<^verbatim>\<open>start_next\<close> only.\<close>

theorem enqueue_frame:
  "instances (fst (add_to_queue s url)) = instances s \<and>
   db_instances (fst (add_to_queue s url)) = db_instances s \<and>
   next_instance_id (fst (add_to_queue s url)) = next_instance_id s \<and>
   settings (fst (add_to_queue s url)) = settings s \<and>
   (c \<noteq> StartNext \<longrightarrow>
      set (instances (step s (c, w))) \<subseteq> set (instances s) \<and>
      next_instance_id (step s (c, w)) = next_instance_id s)"
proof -
  have "c \<noteq> StartNext \<Longrightarrow> set (instances (step s (c, w))) \<subseteq> set (instances s)"
    using step_not_start [of c s w] by auto
  then show ?thesis
    using add_to_queue_cases [of s url] by (auto simp: step_not_start_next_id)
qed

theorem enqueue_frame_witness:
  "Stop 1 \<noteq> StartNext \<and>
   set (instances (step (run (empty_controller default_settings) (take 5 demo_trace)) (Stop 1, launch_world 0))) \<subseteq> set (instances (run (empty_controller default_settings) (take 5 demo_trace))) \<and>
   next_instance_id (step (run (empty_controller default_settings) (take 5 demo_trace)) (Stop 1, launch_world 0)) = next_instance_id (run (empty_controller default_settings) (take 5 demo_trace)) \<and>
   instances (fst (add_to_queue (run (empty_controller default_settings) (take 5 demo_trace)) ''http://d'')) = instances (run (empty_controller default_settings) (take 5 demo_trace))"
  using enqueue_frame [of "(run (empty_controller default_settings) (take 5 demo_trace))" "''http://d''" "Stop 1" "launch_world 0"]
  by simp

text \<open>Claim C10. \<^verbatim>\<open>add_to_queue\<close> returns \<^verbatim>\<open>False\<close> exactly when the URL starts neither
  with \<^verbatim>\<open>http://\<close> nor with \<^verbatim>\<open>https://\<close>, and then the controller, tables included,
  is unchanged.\<close>

theorem enqueue_validation:
  "(snd (add_to_queue s url) = False \<longleftrightarrow> \<not> (prefix ''http://'' url \<or> prefix ''https://'' url)) \<and>
   (snd (add_to_queue s url) = False \<longrightarrow> fst (add_to_queue s url) = s)"
  by (simp add: add_to_queue_def db_insert_queue_def Let_def valid_url_def)

theorem enqueue_validation_witness:
  "snd (add_to_queue (empty_controller default_settings) ''ftp://x'') = False \<and>
   \<not> (prefix ''http://'' ''ftp://x'' \<or> prefix ''https://'' ''ftp://x'') \<and>
   fst (add_to_queue (empty_controller default_settings) ''ftp://x'') = empty_controller default_settings"
  using enqueue_validation [of "empty_controller default_settings" "''ftp://x''"]
  by simp

section \<open>Behaviour of the older script\<close>

text \<open>The older script \<^verbatim>\<open>taby-controller.py\<close> differs from \<^verbatim>\<open>taby_controller.py\<close> in the
  points below; the claims above are settled on \<^verbatim>\<open>taby_controller.py\<close>.\<close>

text \<open>Its \<^verbatim>\<open>add\<close> command starts the URL at once when there is room.\<close>

lemma legacy_add_admits:
  "urls_queue (fst (legacy_add (legacy_empty single_settings) (legacy_launch 100 10) ''http://a'')) = [] \<and>
   map row_url (taby_instances
     (fst (legacy_add (legacy_empty single_settings) (legacy_launch 100 10) ''http://a''))) = [''http://a'']"
  by code_simp

text \<open>At capacity its \<^verbatim>\<open>start_next\<close> does not refuse: it stops the oldest instance and
  starts the head of the queue. The table is then empty when the new id is computed, so
  the new instance gets id 0 and port 8554 again.\<close>

lemma legacy_start_next_at_capacity:
  "running_count legacy_full = max_concurrent (legacy_settings legacy_full) \<and>
   urls_queue legacy_full = [''http://b''] \<and>
   map row_id (taby_instances legacy_full) = [0] \<and>
   map row_url (taby_instances legacy_full) = [''http://a''] \<and>
   urls_queue (fst (legacy_start_next legacy_full (legacy_launch 101 20))) = [] \<and>
   map row_id (taby_instances (fst (legacy_start_next legacy_full (legacy_launch 101 20)))) = [0] \<and>
   map row_url (taby_instances (fst (legacy_start_next legacy_full (legacy_launch 101 20)))) = [''http://b''] \<and>
   map row_rtsp_port (taby_instances (fst (legacy_start_next legacy_full (legacy_launch 101 20)))) = [8554]"
  by code_simp

text \<open>\<^verbatim>\<open>update_statuses\<close> marks the row of an exited process as dead and keeps it;
  the \<^verbatim>\<open>clean\<close> command deletes it afterwards.\<close>

lemma legacy_update_statuses_marks:
  "map_sum id (\<lambda>s. map row_status (taby_instances s)) (legacy_update_statuses legacy_full legacy_reaper)
     = Inr [''Dead''] \<and>
   map_sum id (\<lambda>s. taby_instances (legacy_clean s)) (legacy_update_statuses legacy_full legacy_reaper)
     = Inr []"
  by code_simp

text \<open>The URL is popped before the launch; when the launch raises, the URL is gone.\<close>

lemma legacy_start_next_drops_url:
  "legacy_start_next ((legacy_empty default_settings)\<lparr>urls_queue := [''http://b'']\<rparr>) legacy_reaper
     = (legacy_empty default_settings, Some PopenError)"
  by code_simp

end
